theory Spec2Isabelle
  imports Main
begin

section \<open>JavaScript values and library functions used by the engines\<close>

text \<open>
  The errors a call can end with: the two built-in exceptions the engine code can raise
  (\<open>Array(n)\<close> with an invalid length; a property read on \<open>undefined\<close>) and the engine's own
  \<open>Error("Action index out of bounds")\<close>. A call that throws is \<open>Inl\<close> of the error; the
  sequence of actions that contained it ends there, as \<open>forEach\<close> propagates the exception.
  The object as a throwing call leaves it, with a part of the action done, is not a state
  of the model.
\<close>

datatype error = RangeError | TypeError | OutOfBounds

text \<open>
  Numbers: row, column and index values are integers (\<open>int\<close>). The repeat count is the result
  of \<open>parseInt\<close>, \<open>None\<close> standing for \<open>NaN\<close>.
  Strings are \<open>string\<close>, a list of 8-bit characters where JavaScript has 16-bit code
  units; the engines look at no character but the line break, \<open>0x0A\<close>, and \<open>parseInt\<close>
  at white space, signs and digits.
\<close>

abbreviation NL :: char where
  "NL \<equiv> CHR 0x0A"

text \<open>\<open>xs[i]\<close>: \<open>undefined\<close> (here \<open>None\<close>) outside the array.\<close>

definition at :: "'a list \<Rightarrow> int \<Rightarrow> 'a option" where
  "at xs i = (if 0 \<le> i \<and> i < int (length xs) then Some (xs ! nat i) else None)"

text \<open>
  \<open>s.substring(a, b)\<close>: both indices are clamped to \<open>[0, s.length]\<close> and swapped when
  \<open>a > b\<close>. \<open>s.substring(a)\<close> runs to the end of the string.
\<close>

definition substring :: "string \<Rightarrow> int \<Rightarrow> int \<Rightarrow> string" where
  "substring s a b =
     (let a' = min (nat a) (length s); b' = min (nat b) (length s)
      in take (max a' b' - min a' b') (drop (min a' b') s))"

definition substringFrom :: "string \<Rightarrow> int \<Rightarrow> string" where
  "substringFrom s a = drop (nat a) s"

text \<open>
  \<open>xs.splice(start, deleteCount, ...items)\<close>, as the result array: a negative \<open>start\<close> counts
  from the end, \<open>start\<close> is clamped to the array, \<open>deleteCount\<close> to \<open>[0, length - start]\<close>.
\<close>

definition splice :: "'a list \<Rightarrow> int \<Rightarrow> int \<Rightarrow> 'a list \<Rightarrow> 'a list" where
  "splice xs start deleteCount items =
     (let n = int (length xs);
          st = (if start < 0 then max (n + start) 0 else min start n);
          d = min (max deleteCount 0) (n - st)
      in take (nat st) xs @ items @ drop (nat (st + d)) xs)"

text \<open>\<open>s.split("\n")\<close> and \<open>xs.join("\n")\<close>.\<close>

fun split :: "string \<Rightarrow> string list" where
  "split [] = [[]]"
| "split (c # cs) =
     (if c = NL then [] # split cs
      else (case split cs of [] \<Rightarrow> [[c]] | l # ls \<Rightarrow> (c # l) # ls))"

fun join :: "string list \<Rightarrow> string" where
  "join [] = []"
| "join [l] = l"
| "join (l # m # ls) = l @ NL # join (m # ls)"

text \<open>
  \<open>parseInt(s)\<close> with no radix argument: leading white space is skipped, an optional sign is
  read, a \<open>0x\<close> or \<open>0X\<close> prefix selects radix 16, and the longest prefix of digits is the
  value; with no digit the result is \<open>NaN\<close>. The value is kept exact (JavaScript rounds a
  value beyond \<open>2^53\<close> to a double; a loop of that many iterations does not end in practice,
  and \<open>Array(n)\<close> refuses such a length).
\<close>

definition isWhiteSpace :: "char \<Rightarrow> bool" where
  "isWhiteSpace c = (of_char c \<in> {9, 10, 11, 12, 13, 32, 160 :: nat})"

definition digitValue :: "char \<Rightarrow> nat" where
  "digitValue c =
     (let k = (of_char c :: nat)
      in if 48 \<le> k \<and> k \<le> 57 then k - 48
         else if 97 \<le> k \<and> k \<le> 122 then k - 87
         else if 65 \<le> k \<and> k \<le> 90 then k - 55
         else 36)"

definition parseInt :: "string \<Rightarrow> int option" where
  "parseInt str =
     (let s1 = dropWhile isWhiteSpace str;
          sign = (case s1 of c # r \<Rightarrow> if c = CHR ''-'' then - 1 else 1 | [] \<Rightarrow> (1 :: int));
          s2 = (case s1 of c # r \<Rightarrow> if c = CHR ''-'' \<or> c = CHR ''+'' then r else s1 | [] \<Rightarrow> []);
          hex = (case s2 of a # b # r \<Rightarrow> a = CHR ''0'' \<and> (b = CHR ''x'' \<or> b = CHR ''X'') | _ \<Rightarrow> False);
          radix = (if hex then 16 else 10 :: nat);
          s3 = (if hex then drop 2 s2 else s2);
          ds = takeWhile (\<lambda>c. digitValue c < radix) s3
      in if ds = [] then None
         else Some (sign * int (foldl (\<lambda>acc c. acc * radix + digitValue c) 0 ds)))"

text \<open>
  \<open>for (let i = 0; i < numTimes; i++)\<close>: the number of iterations. Every comparison with
  \<open>NaN\<close> is false, so a \<open>NaN\<close> count runs the body no time; so does a count below 1.
\<close>

definition iterations :: "int option \<Rightarrow> nat" where
  "iterations numTimes = (case numTimes of None \<Rightarrow> 0 | Some n \<Rightarrow> nat n)"

text \<open>A loop body that may throw, run \<open>n\<close> times; the first exception ends the loop.\<close>

fun repeat :: "nat \<Rightarrow> ('s \<Rightarrow> error + 's) \<Rightarrow> 's \<Rightarrow> error + 's" where
  "repeat 0 body s = Inr s"
| "repeat (Suc n) body s = (case body s of Inl e \<Rightarrow> Inl e | Inr s' \<Rightarrow> repeat n body s')"

section \<open>Actions and the predicates of the types package\<close>

record IAction =
  name :: string
  "value" :: string

record IEditorPosition =
  row :: int
  col :: int

text \<open>
  \<open>isRepeatableAction\<close>, \<open>isEditorAction\<close>, \<open>isCodeAction\<close> and \<open>isSpeakAction\<close> are imported
  from the package \<open>@fullstackcraftllc/codevideo-types\<close>, which is not part of this
  repository: they are parameters of the model.
\<close>

record types_package =
  isRepeatableAction :: "IAction \<Rightarrow> bool"
  isEditorAction :: "IAction \<Rightarrow> bool"
  isCodeAction :: "IAction \<Rightarrow> bool"
  isSpeakAction :: "IAction \<Rightarrow> bool"

section \<open>The unified engine (class \<open>VirtualEditor\<close> with the \<open>editor-\<close> action names)\<close>

text \<open>
  The object's fields. Arrays of lines are JavaScript objects: a field that holds one holds
  a reference, and \<open>heap\<close> maps each reference to the array's current content
  (\<open>heapNext\<close> is the next unused reference, the one a new array gets). \<open>codeLines\<close> is
  the live buffer, mutated in place by every action; \<open>codeLinesHistory\<close> and
  \<open>highlightHistory\<close> hold one reference per recorded step. The \<open>verbose\<close> flag only selects console output, which is not modelled.
\<close>

type_synonym ref = nat

record VirtualEditor =
  caretRow :: int
  caretCol :: int
  highlightStartRow :: int
  highlightStartCol :: int
  codeLines :: ref
  actionsApplied :: "IAction list"
  editorActionsApplied :: "IAction list"
  codeLinesHistory :: "ref list"
  caretPositionHistory :: "IEditorPosition list"
  highlightStartPositionHistory :: "IEditorPosition list"
  currentlyHighlightedCode :: string
  highlightHistory :: "ref list"
  isSaved :: bool
  isEditorContextMenuOpen :: bool
  heap :: "ref \<Rightarrow> string list"
  heapNext :: ref

text \<open>\<open>getCodeLines()\<close>: the content of the live buffer.\<close>

definition getCodeLines :: "VirtualEditor \<Rightarrow> string list" where
  "getCodeLines s = heap s (codeLines s)"

text \<open>\<open>this.codeLines[r]\<close>, \<open>this.codeLines.length\<close>.\<close>

definition lineAt :: "VirtualEditor \<Rightarrow> int \<Rightarrow> string option" where
  "lineAt s r = at (getCodeLines s) r"

definition lineCount :: "VirtualEditor \<Rightarrow> int" where
  "lineCount s = int (length (getCodeLines s))"

text \<open>
  \<open>this.codeLines[r] = v\<close>, in place. Every assignment of the engine follows a successful
  read of the same index, so \<open>r\<close> is inside the array where this is used.
\<close>

definition setLine :: "int \<Rightarrow> string \<Rightarrow> VirtualEditor \<Rightarrow> VirtualEditor" where
  "setLine r v s = s\<lparr>heap := (heap s)(codeLines s := (getCodeLines s)[nat r := v])\<rparr>"

text \<open>\<open>this.codeLines.splice(start, deleteCount, ...items)\<close>, in place.\<close>

definition spliceLines :: "int \<Rightarrow> int \<Rightarrow> string list \<Rightarrow> VirtualEditor \<Rightarrow> VirtualEditor" where
  "spliceLines start deleteCount items s =
     s\<lparr>heap := (heap s)(codeLines s := splice (getCodeLines s) start deleteCount items)\<rparr>"

definition clearCurrentHighlightedCode :: "VirtualEditor \<Rightarrow> VirtualEditor" where
  "clearCurrentHighlightedCode s =
     s\<lparr>highlightStartRow := - 1, highlightStartCol := - 1, currentlyHighlightedCode := []\<rparr>"

subsection \<open>\<open>calculateHighlightedText\<close>\<close>

text \<open>One line of a multi-line highlight, for \<open>row\<close> between \<open>startRow\<close> and \<open>endRow\<close>.\<close>

definition highlightedLine :: "VirtualEditor \<Rightarrow> int \<Rightarrow> int \<Rightarrow> bool \<Rightarrow> int \<Rightarrow> string option" where
  "highlightedLine s startRow endRow isForwardSelection r =
     (case lineAt s r of
        None \<Rightarrow> None
      | Some l \<Rightarrow>
          if r = startRow
          then Some (substringFrom l (if isForwardSelection then highlightStartCol s else caretCol s))
          else if r = endRow
          then Some (substring l 0 (if isForwardSelection then caretCol s else highlightStartCol s))
          else Some l)"

text \<open>All of them or \<open>None\<close>, when a row of the range is outside the buffer.\<close>

fun collect :: "'a option list \<Rightarrow> 'a list option" where
  "collect [] = Some []"
| "collect (None # xs) = None"
| "collect (Some x # xs) = (case collect xs of None \<Rightarrow> None | Some ys \<Rightarrow> Some (x # ys))"

definition calculateHighlightedText :: "VirtualEditor \<Rightarrow> error + string" where
  "calculateHighlightedText s =
     (if highlightStartRow s = - 1 then Inr []
      else if caretRow s = highlightStartRow s then
        (case lineAt s (caretRow s) of
           None \<Rightarrow> Inl TypeError
         | Some l \<Rightarrow>
             Inr (substring l (min (highlightStartCol s) (caretCol s))
                              (max (highlightStartCol s) (caretCol s))))
      else
        (let startRow = min (highlightStartRow s) (caretRow s);
             endRow = max (highlightStartRow s) (caretRow s);
             isForwardSelection = highlightStartRow s < caretRow s
         in case collect (map (highlightedLine s startRow endRow isForwardSelection) [startRow..endRow]) of
              None \<Rightarrow> Inl TypeError
            | Some highlightedLines \<Rightarrow> Inr (join highlightedLines)))"

definition setHighlightedCode :: "VirtualEditor \<Rightarrow> error + VirtualEditor" where
  "setHighlightedCode s =
     (case calculateHighlightedText s of
        Inl e \<Rightarrow> Inl e
      | Inr t \<Rightarrow> Inr (s\<lparr>currentlyHighlightedCode := t\<rparr>))"

subsection \<open>The cases of \<open>applyAction\<close>\<close>

text \<open>
  Deleting the selection between \<open>(startRow, startCol)\<close> and \<open>(endRow, endCol)\<close>, as the
  \<open>editor-backspace\<close> and \<open>editor-space\<close> cases both write it.
\<close>

definition deleteRange :: "int \<Rightarrow> int \<Rightarrow> int \<Rightarrow> int \<Rightarrow> VirtualEditor \<Rightarrow> error + VirtualEditor" where
  "deleteRange startRow endRow startCol endCol s =
     (if startRow = endRow then
        (case lineAt s startRow of
           None \<Rightarrow> Inl TypeError
         | Some l \<Rightarrow>
             (let start = min startCol endCol; end' = max startCol endCol
              in Inr (clearCurrentHighlightedCode
                   ((setLine startRow (substring l 0 start @ substringFrom l end') s)
                      \<lparr>caretRow := startRow, caretCol := start\<rparr>))))
      else
        (case lineAt s startRow of
           None \<Rightarrow> Inl TypeError
         | Some l1 \<Rightarrow>
             (case lineAt s endRow of
                None \<Rightarrow> Inl TypeError
              | Some l2 \<Rightarrow>
                  (let firstLineStart = substring l1 0 startCol;
                       lastLineEnd = substringFrom l2 endCol;
                       s1 = setLine startRow (firstLineStart @ lastLineEnd) s;
                       s2 = spliceLines (startRow + 1) (endRow - startRow) [] s1
                   in Inr (clearCurrentHighlightedCode
                        (s2\<lparr>caretRow := startRow, caretCol := startCol\<rparr>))))))"

text \<open>\<open>editor-enter\<close> with an active highlight.\<close>

definition enterHighlight :: "int option \<Rightarrow> VirtualEditor \<Rightarrow> error + VirtualEditor" where
  "enterHighlight numTimes s =
     (let isForwardSelection =
            (highlightStartRow s < caretRow s \<or>
             (highlightStartRow s = caretRow s \<and> highlightStartCol s \<le> caretCol s));
          startRow = (if isForwardSelection then highlightStartRow s else caretRow s);
          endRow = (if isForwardSelection then caretRow s else highlightStartRow s);
          startCol = (if isForwardSelection then highlightStartCol s else caretCol s);
          endCol = (if isForwardSelection then caretCol s else highlightStartCol s)
      in case lineAt s startRow of
           None \<Rightarrow> Inl TypeError
         | Some l1 \<Rightarrow>
             (case lineAt s endRow of
                None \<Rightarrow> Inl TypeError
              | Some l2 \<Rightarrow>
                  (let beforeText = substring l1 0 startCol;
                       afterText = substringFrom l2 endCol;
                       s1 = setLine startRow beforeText s;
                       s2 = (if endRow > startRow
                             then spliceLines (startRow + 1) (endRow - startRow) [] s1 else s1)
                   in case numTimes of
                        None \<Rightarrow> Inl RangeError
                      | Some n \<Rightarrow>
                          if n - 1 < 0 \<or> 4294967295 < n - 1 then Inl RangeError
                          else
                            (let newContent = replicate (nat (n - 1)) [] @ [afterText];
                                 s3 = s2\<lparr>caretRow := startRow + n, caretCol := 0\<rparr>;
                                 s4 = spliceLines (caretRow s3) 0 newContent s3
                             in Inr (clearCurrentHighlightedCode s4)))))"

text \<open>\<open>editor-enter\<close> without highlight: the loop body.\<close>

definition enterStep :: "VirtualEditor \<Rightarrow> error + VirtualEditor" where
  "enterStep s =
     (case lineAt s (caretRow s) of
        None \<Rightarrow> Inl TypeError
      | Some currentLine \<Rightarrow>
          (let beforeCaret = substring currentLine 0 (caretCol s);
               afterCaret = substringFrom currentLine (caretCol s);
               s1 = setLine (caretRow s) beforeCaret s;
               s2 = spliceLines (caretRow s1 + 1) 0 [afterCaret] s1
           in Inr (s2\<lparr>caretRow := caretRow s2 + 1, caretCol := 0\<rparr>)))"

definition editorEnter :: "int option \<Rightarrow> VirtualEditor \<Rightarrow> error + VirtualEditor" where
  "editorEnter numTimes s0 =
     (let s = s0\<lparr>isSaved := False\<rparr>
      in if highlightStartRow s \<noteq> - 1 then enterHighlight numTimes s
         else repeat (iterations numTimes) enterStep s)"

text \<open>\<open>editor-type\<close>: the deletion of the highlight, written out in this case on its own.\<close>

definition typeDeleteHighlight :: "VirtualEditor \<Rightarrow> error + VirtualEditor" where
  "typeDeleteHighlight s =
     (if highlightStartRow s \<noteq> - 1 then
        (let startRow = highlightStartRow s; startColumn = highlightStartCol s;
             endRow = caretRow s; endColumn = caretCol s
         in if startRow = endRow then
              (case lineAt s startRow of
                 None \<Rightarrow> Inl TypeError
               | Some l \<Rightarrow>
                   Inr (clearCurrentHighlightedCode
                     ((setLine startRow (substring l 0 startColumn @ substringFrom l endColumn) s)
                        \<lparr>caretRow := startRow, caretCol := startColumn\<rparr>)))
            else
              (case lineAt s startRow of
                 None \<Rightarrow> Inl TypeError
               | Some l1 \<Rightarrow>
                   (case lineAt s endRow of
                      None \<Rightarrow> Inl TypeError
                    | Some l2 \<Rightarrow>
                        (let s1 = setLine startRow
                                    (substring l1 0 startColumn @ substringFrom l2 endColumn) s;
                             s2 = spliceLines (startRow + 1) (endRow - startRow) [] s1
                         in Inr (clearCurrentHighlightedCode
                              (s2\<lparr>caretRow := startRow, caretCol := startColumn\<rparr>))))))
      else Inr s)"

text \<open>
  The inner loop \<open>for (let j = 1; j < lines.length; j++)\<close> over the segments after the
  first: the last one takes the rest of the original line.
\<close>

fun typeRemainingLines :: "string list \<Rightarrow> string \<Rightarrow> VirtualEditor \<Rightarrow> VirtualEditor" where
  "typeRemainingLines [] restOfLine s = s"
| "typeRemainingLines [l] restOfLine s =
     (let s1 = s\<lparr>caretRow := caretRow s + 1\<rparr>;
          s2 = spliceLines (caretRow s1) 0 [l @ restOfLine] s1
      in s2\<lparr>caretCol := int (length l)\<rparr>)"
| "typeRemainingLines (l # ls) restOfLine s =
     (let s1 = s\<lparr>caretRow := caretRow s + 1\<rparr>;
          s2 = spliceLines (caretRow s1) 0 [l] s1
      in typeRemainingLines ls restOfLine s2)"

text \<open>
  The body of the typing loop. \<open>split\<close> returns at least one segment, so the first case
  of the list is never taken.
\<close>

definition typeStep :: "string \<Rightarrow> string list \<Rightarrow> VirtualEditor \<Rightarrow> error + VirtualEditor" where
  "typeStep v lines s =
     (case lineAt s (caretRow s) of
        None \<Rightarrow> Inl TypeError
      | Some l \<Rightarrow>
          (case lines of
             [] \<Rightarrow> Inr s
           | [l0] \<Rightarrow>
               Inr ((setLine (caretRow s)
                       (substring l 0 (caretCol s) @ v @ substringFrom l (caretCol s)) s)
                      \<lparr>caretCol := caretCol s + int (length v)\<rparr>)
           | l0 # ls \<Rightarrow>
               (let restOfLine = substringFrom l (caretCol s);
                    s1 = setLine (caretRow s) (substring l 0 (caretCol s) @ l0) s
                in Inr (typeRemainingLines ls restOfLine s1))))"

definition editorType :: "int option \<Rightarrow> string \<Rightarrow> VirtualEditor \<Rightarrow> error + VirtualEditor" where
  "editorType numTimes v s0 =
     (case typeDeleteHighlight (s0\<lparr>isSaved := False\<rparr>) of
        Inl e \<Rightarrow> Inl e
      | Inr s \<Rightarrow> repeat (iterations numTimes) (typeStep v (split v)) s)"

text \<open>The arrow keys. \<open>currentLineLength\<close> is read once, before the \<open>switch\<close>.\<close>

definition arrowDownStep :: "VirtualEditor \<Rightarrow> error + VirtualEditor" where
  "arrowDownStep s =
     (if caretRow s < lineCount s - 1 then Inr (s\<lparr>caretRow := caretRow s + 1\<rparr>) else Inr s)"

definition arrowUpStep :: "VirtualEditor \<Rightarrow> error + VirtualEditor" where
  "arrowUpStep s = (if caretRow s > 0 then Inr (s\<lparr>caretRow := caretRow s - 1\<rparr>) else Inr s)"

definition arrowRightStep :: "int \<Rightarrow> VirtualEditor \<Rightarrow> error + VirtualEditor" where
  "arrowRightStep currentLineLength s =
     (if caretCol s < currentLineLength then Inr (s\<lparr>caretCol := caretCol s + 1\<rparr>)
      else if caretRow s < lineCount s - 1 then Inr (s\<lparr>caretRow := caretRow s + 1, caretCol := 0\<rparr>)
      else Inr s)"

definition arrowLeftStep :: "VirtualEditor \<Rightarrow> error + VirtualEditor" where
  "arrowLeftStep s =
     (if caretCol s > 0 then Inr (s\<lparr>caretCol := caretCol s - 1\<rparr>)
      else if caretRow s > 0 then
        (case lineAt s (caretRow s - 1) of
           None \<Rightarrow> Inl TypeError
         | Some l \<Rightarrow> Inr (s\<lparr>caretRow := caretRow s - 1, caretCol := int (length l) - 1\<rparr>))
      else Inr s)"

definition thenClear :: "error + VirtualEditor \<Rightarrow> error + VirtualEditor" where
  "thenClear r = (case r of Inl e \<Rightarrow> Inl e | Inr s \<Rightarrow> Inr (clearCurrentHighlightedCode s))"

text \<open>\<open>editor-backspace\<close>.\<close>

definition backspaceStep :: "VirtualEditor \<Rightarrow> error + VirtualEditor" where
  "backspaceStep s =
     (if caretCol s > 0 then
        (case lineAt s (caretRow s) of
           None \<Rightarrow> Inl TypeError
         | Some l \<Rightarrow>
             Inr ((setLine (caretRow s)
                     (substring l 0 (caretCol s - 1) @ substringFrom l (caretCol s)) s)
                    \<lparr>caretCol := caretCol s - 1\<rparr>))
      else if caretRow s > 0 then
        (case lineAt s (caretRow s - 1) of
           None \<Rightarrow> Inl TypeError
         | Some previous \<Rightarrow>
             (let previousLineLength = int (length previous);
                  current = (case lineAt s (caretRow s) of None \<Rightarrow> ''undefined'' | Some l \<Rightarrow> l);
                  s1 = setLine (caretRow s - 1) (previous @ current) s;
                  s2 = spliceLines (caretRow s1) 1 [] s1
              in Inr (s2\<lparr>caretRow := caretRow s2 - 1, caretCol := previousLineLength\<rparr>)))
      else Inr s)"

definition editorBackspace :: "int option \<Rightarrow> VirtualEditor \<Rightarrow> error + VirtualEditor" where
  "editorBackspace numTimes s0 =
     (let s = s0\<lparr>isSaved := False\<rparr>
      in if highlightStartRow s \<noteq> - 1 then
           (let startRow = min (highlightStartRow s) (caretRow s);
                endRow = max (highlightStartRow s) (caretRow s);
                isForwardSelection = highlightStartRow s < caretRow s;
                startCol = (if isForwardSelection then highlightStartCol s else caretCol s);
                endCol = (if isForwardSelection then caretCol s else highlightStartCol s)
            in deleteRange startRow endRow startCol endCol s)
         else repeat (iterations numTimes) backspaceStep s)"

text \<open>\<open>editor-space\<close> and \<open>editor-tab\<close>: one character inserted at the caret per iteration.\<close>

definition insertCharStep :: "char \<Rightarrow> VirtualEditor \<Rightarrow> error + VirtualEditor" where
  "insertCharStep c s =
     (case lineAt s (caretRow s) of
        None \<Rightarrow> Inl TypeError
      | Some l \<Rightarrow>
          Inr ((setLine (caretRow s)
                  (substring l 0 (caretCol s) @ [c] @ substringFrom l (caretCol s)) s)
                 \<lparr>caretCol := caretCol s + 1\<rparr>))"

definition spaceDeleteHighlight :: "VirtualEditor \<Rightarrow> error + VirtualEditor" where
  "spaceDeleteHighlight s =
     (if highlightStartRow s \<noteq> - 1 then
        (let startRow = min (highlightStartRow s) (caretRow s);
             endRow = max (highlightStartRow s) (caretRow s);
             startCol = (if startRow = highlightStartRow s then highlightStartCol s else caretCol s);
             endCol = (if endRow = highlightStartRow s then highlightStartCol s else caretCol s)
         in deleteRange startRow endRow startCol endCol s)
      else Inr s)"

definition editorSpace :: "int option \<Rightarrow> VirtualEditor \<Rightarrow> error + VirtualEditor" where
  "editorSpace numTimes s0 =
     (case spaceDeleteHighlight (s0\<lparr>isSaved := False\<rparr>) of
        Inl e \<Rightarrow> Inl e
      | Inr s \<Rightarrow> repeat (iterations numTimes) (insertCharStep CHR '' '') s)"

definition editorTab :: "int option \<Rightarrow> VirtualEditor \<Rightarrow> error + VirtualEditor" where
  "editorTab numTimes s = repeat (iterations numTimes) (insertCharStep (CHR 0x09)) s"

text \<open>\<open>editor-command-left\<close>, \<open>editor-command-right\<close>.\<close>

definition commandLeftStep :: "VirtualEditor \<Rightarrow> error + VirtualEditor" where
  "commandLeftStep s = (if caretCol s > 0 then Inr (s\<lparr>caretCol := 0\<rparr>) else Inr s)"

definition commandRightStep :: "VirtualEditor \<Rightarrow> error + VirtualEditor" where
  "commandRightStep s =
     (case lineAt s (caretRow s) of
        None \<Rightarrow> Inl TypeError
      | Some l \<Rightarrow>
          if caretCol s < int (length l) then Inr (s\<lparr>caretCol := int (length l)\<rparr>) else Inr s)"

text \<open>The selection-extending arrows.\<close>

definition startHighlight :: "VirtualEditor \<Rightarrow> VirtualEditor" where
  "startHighlight s =
     (if highlightStartRow s = - 1
      then s\<lparr>highlightStartRow := caretRow s, highlightStartCol := caretCol s\<rparr>
      else s)"

definition shiftLeftStep :: "VirtualEditor \<Rightarrow> error + VirtualEditor" where
  "shiftLeftStep s =
     (if caretCol s > 0 then Inr (s\<lparr>caretCol := caretCol s - 1\<rparr>)
      else if caretRow s > 0 then
        (case lineAt s (caretRow s - 1) of
           None \<Rightarrow> Inl TypeError
         | Some l \<Rightarrow> Inr (s\<lparr>caretRow := caretRow s - 1, caretCol := int (length l)\<rparr>))
      else Inr s)"

definition shiftRightStep :: "VirtualEditor \<Rightarrow> error + VirtualEditor" where
  "shiftRightStep s =
     (case lineAt s (caretRow s) of
        None \<Rightarrow> Inl TypeError
      | Some l \<Rightarrow>
          if caretCol s < int (length l) then Inr (s\<lparr>caretCol := caretCol s + 1\<rparr>)
          else if caretRow s < lineCount s - 1
          then Inr (s\<lparr>caretRow := caretRow s + 1, caretCol := 0\<rparr>)
          else Inr s)"

definition shiftDownStep :: "VirtualEditor \<Rightarrow> error + VirtualEditor" where
  "shiftDownStep s =
     (if caretRow s < lineCount s - 1 then
        (case lineAt s (caretRow s + 1) of
           None \<Rightarrow> Inl TypeError
         | Some l \<Rightarrow>
             (let nextLineLength = int (length l)
              in if caretCol s < nextLineLength then Inr (s\<lparr>caretRow := caretRow s + 1\<rparr>)
                 else Inr (s\<lparr>caretRow := caretRow s + 1, caretCol := nextLineLength\<rparr>)))
      else Inr s)"

definition shiftUpStep :: "VirtualEditor \<Rightarrow> error + VirtualEditor" where
  "shiftUpStep s =
     (if caretRow s > 0 then
        (case lineAt s (caretRow s - 1) of
           None \<Rightarrow> Inl TypeError
         | Some l \<Rightarrow>
             (let previousLineLength = int (length l)
              in if caretCol s < previousLineLength then Inr (s\<lparr>caretRow := caretRow s - 1\<rparr>)
                 else Inr (s\<lparr>caretRow := caretRow s - 1, caretCol := previousLineLength\<rparr>)))
      else Inr s)"

definition shiftArrow :: "nat \<Rightarrow> (VirtualEditor \<Rightarrow> error + VirtualEditor) \<Rightarrow> VirtualEditor \<Rightarrow> error + VirtualEditor" where
  "shiftArrow n body s =
     (case repeat n body (startHighlight s) of
        Inl e \<Rightarrow> Inl e
      | Inr s' \<Rightarrow> setHighlightedCode s')"

subsection \<open>\<open>applyAction\<close>\<close>

text \<open>The \<open>switch\<close> on the action's name, on the state after the lines before it.\<close>

definition switchAction :: "IAction \<Rightarrow> int option \<Rightarrow> int \<Rightarrow> VirtualEditor \<Rightarrow> error + VirtualEditor" where
  "switchAction action numTimes currentLineLength s =
     (if name action = ''editor-show-context-menu'' then Inr (s\<lparr>isEditorContextMenuOpen := True\<rparr>)
      else if name action = ''editor-hide-context-menu'' then Inr (s\<lparr>isEditorContextMenuOpen := False\<rparr>)
      else if name action = ''editor-enter'' then editorEnter numTimes s
      else if name action = ''editor-type'' then editorType numTimes (value action) s
      else if name action = ''editor-arrow-down''
        then thenClear (repeat (iterations numTimes) arrowDownStep s)
      else if name action = ''editor-arrow-up''
        then thenClear (repeat (iterations numTimes) arrowUpStep s)
      else if name action = ''editor-arrow-right''
        then thenClear (repeat (iterations numTimes) (arrowRightStep currentLineLength) s)
      else if name action = ''editor-arrow-left''
        then thenClear (repeat (iterations numTimes) arrowLeftStep s)
      else if name action = ''editor-backspace'' then editorBackspace numTimes s
      else if name action = ''editor-space'' then editorSpace numTimes s
      else if name action = ''editor-tab'' then editorTab numTimes s
      else if name action = ''editor-command-left''
        then thenClear (repeat (iterations numTimes) commandLeftStep s)
      else if name action = ''editor-command-right''
        then thenClear (repeat (iterations numTimes) commandRightStep s)
      else if name action = ''editor-shift+arrow-left''
        then shiftArrow (iterations numTimes) shiftLeftStep s
      else if name action = ''editor-shift+arrow-right''
        then shiftArrow (iterations numTimes) shiftRightStep s
      else if name action = ''editor-shift+arrow-down''
        then shiftArrow (iterations numTimes) shiftDownStep s
      else if name action = ''editor-shift+arrow-up''
        then shiftArrow (iterations numTimes) shiftUpStep s
      else if name action = ''editor-save'' then Inr (s\<lparr>isSaved := True\<rparr>)
      else Inr s)"

text \<open>
  The lines after the \<open>switch\<close>: the action and one snapshot per log are appended. The
  buffer snapshot is \<open>this.codeLines.slice()\<close>, a new array with the buffer's content; the
  highlight snapshot is a new one-element array. None of these statements reads what
  another one of them writes, so they are one simultaneous update of the object.
\<close>

definition recordStep :: "types_package \<Rightarrow> IAction \<Rightarrow> VirtualEditor \<Rightarrow> VirtualEditor" where
  "recordStep T action s =
     s\<lparr>actionsApplied := actionsApplied s @ [action],
       editorActionsApplied :=
         (if isEditorAction T action then editorActionsApplied s @ [action]
          else editorActionsApplied s),
       codeLinesHistory := codeLinesHistory s @ [heapNext s],
       caretPositionHistory :=
         caretPositionHistory s @ [\<lparr>row = caretRow s, col = caretCol s\<rparr>],
       highlightStartPositionHistory :=
         highlightStartPositionHistory s @
           [\<lparr>row = (if highlightStartRow s = - 1 then - 1 else highlightStartRow s),
             col = (if highlightStartCol s = - 1 then - 1 else highlightStartCol s)\<rparr>],
       highlightHistory := highlightHistory s @ [Suc (heapNext s)],
       heap := (heap s)
         (heapNext s := getCodeLines s,
          Suc (heapNext s) :=
            (if currentlyHighlightedCode s = [] then [[]] else [currentlyHighlightedCode s])),
       heapNext := Suc (Suc (heapNext s))\<rparr>"

definition applyAction :: "types_package \<Rightarrow> IAction \<Rightarrow> VirtualEditor \<Rightarrow> error + VirtualEditor" where
  "applyAction T action s0 =
     (let numTimes = (if isRepeatableAction T action then parseInt (value action) else Some 1);
          s = s0\<lparr>currentlyHighlightedCode := []\<rparr>;
          currentLineLength = (case lineAt s (caretRow s) of None \<Rightarrow> 0 | Some l \<Rightarrow> int (length l))
      in case switchAction action numTimes currentLineLength s of
           Inl e \<Rightarrow> Inl e
         | Inr s' \<Rightarrow> Inr (recordStep T action s'))"

fun applyActions :: "types_package \<Rightarrow> IAction list \<Rightarrow> VirtualEditor \<Rightarrow> error + VirtualEditor" where
  "applyActions T [] s = Inr s"
| "applyActions T (action # actions) s =
     (case applyAction T action s of
        Inl e \<Rightarrow> Inl e
      | Inr s' \<Rightarrow> applyActions T actions s')"

subsection \<open>The constructor and the accessors\<close>

text \<open>
  \<open>new VirtualEditor(initialCodeLines, actions)\<close>. The buffer is the caller's array itself
  (or the new array \<open>[""]\<close>), here the first object of the heap; the first snapshots are
  new arrays. An omitted \<open>actions\<close> argument is the empty list.
\<close>

definition construct :: "types_package \<Rightarrow> string list \<Rightarrow> IAction list \<Rightarrow> error + VirtualEditor" where
  "construct T initialCodeLines0 actions =
     (let initialCodeLines = (if length initialCodeLines0 = 0 then [[]] else initialCodeLines0);
          seed = \<lparr>name = ''editor-type'',
                  value = (if length initialCodeLines = 1 then initialCodeLines ! 0
                           else join initialCodeLines)\<rparr>
      in applyActions T actions
           \<lparr>caretRow = 0, caretCol = 0, highlightStartRow = - 1, highlightStartCol = - 1,
            codeLines = 0,
            actionsApplied = [seed],
            editorActionsApplied = [seed],
            codeLinesHistory = [1],
            caretPositionHistory = [\<lparr>row = 0, col = 0\<rparr>],
            highlightStartPositionHistory = [\<lparr>row = - 1, col = - 1\<rparr>],
            currentlyHighlightedCode = [],
            highlightHistory = [2],
            isSaved = False,
            isEditorContextMenuOpen = False,
            heap = (\<lambda>r. if r = 0 then initialCodeLines
                        else if r = 1 then initialCodeLines
                        else if r = 2 then [[]] else []),
            heapNext = 3\<rparr>)"

definition getCode :: "VirtualEditor \<Rightarrow> string" where
  "getCode s = join (getCodeLines s)"

definition getCurrentCaretPosition :: "VirtualEditor \<Rightarrow> IEditorPosition" where
  "getCurrentCaretPosition s = \<lparr>row = caretRow s + 1, col = caretCol s + 1\<rparr>"

definition getIsSaved :: "VirtualEditor \<Rightarrow> bool" where
  "getIsSaved s = isSaved s"

definition getCurrentHighlightedCode :: "VirtualEditor \<Rightarrow> string" where
  "getCurrentHighlightedCode s = currentlyHighlightedCode s"

text \<open>
  The history queries: an index past the last entry throws the engine's error; a negative
  one reads \<open>undefined\<close> and the call of \<open>join\<close> on it throws.
\<close>

definition getCodeAtActionIndex :: "int \<Rightarrow> VirtualEditor \<Rightarrow> error + string" where
  "getCodeAtActionIndex actionIndex s =
     (if actionIndex > int (length (codeLinesHistory s)) - 1 then Inl OutOfBounds
      else case at (codeLinesHistory s) actionIndex of
             None \<Rightarrow> Inl TypeError
           | Some r \<Rightarrow> Inr (join (heap s r)))"

definition getHighlightedCodeAtActionIndex :: "int \<Rightarrow> VirtualEditor \<Rightarrow> error + string" where
  "getHighlightedCodeAtActionIndex actionIndex s =
     (if actionIndex > int (length (highlightHistory s)) - 1 then Inl OutOfBounds
      else case at (highlightHistory s) actionIndex of
             None \<Rightarrow> Inl TypeError
           | Some r \<Rightarrow> Inr (join (heap s r)))"

section \<open>The older engine (\<open>src/VirtualEditor.ts\<close>, with the plain action names)\<close>










































section \<open>Corresponding actions and states of the two engines\<close>






section \<open>Reachable states and what the engine keeps\<close>

text \<open>
  The states of an engine object: the one the constructor builds (with no actions), and
  every state a call of \<open>applyAction\<close> returns from one of them. The constructor with
  actions, and \<open>applyActions\<close>, are sequences of such calls. The two setters of the class,
  \<open>setValuesFromEditor\<close> and \<open>setCurrentCaretPosition\<close>, which overwrite the buffer and the
  caret with what the caller gives, are not among the steps.
\<close>

inductive reachable :: "types_package \<Rightarrow> VirtualEditor \<Rightarrow> bool" where
  constructed: "construct T initialCodeLines [] = Inr s \<Longrightarrow> reachable T s"
| applied: "reachable T s \<Longrightarrow> applyAction T action s = Inr s' \<Longrightarrow> reachable T s'"

text \<open>
  The caret's row is a row of the buffer, and so is the highlight's start row unless it is
  the sentinel \<open>-1\<close>.
\<close>

definition rowsOk :: "VirtualEditor \<Rightarrow> bool" where
  "rowsOk s =
     (0 \<le> caretRow s \<and> caretRow s < lineCount s \<and>
      (highlightStartRow s = - 1 \<or>
       (0 \<le> highlightStartRow s \<and> highlightStartRow s < lineCount s)))"

text \<open>
  The heap is well formed for the object: all its references are allocated, and no
  recorded snapshot is the live buffer.
\<close>

definition heapOk :: "VirtualEditor \<Rightarrow> bool" where
  "heapOk s =
     (codeLines s < heapNext s \<and>
      list_all (\<lambda>r. r < heapNext s \<and> r \<noteq> codeLines s) (codeLinesHistory s) \<and>
      list_all (\<lambda>r. r < heapNext s \<and> r \<noteq> codeLines s) (highlightHistory s))"

text \<open>
  What the \<open>switch\<close> leaves alone: the references, the logs, and every array of the heap
  but the live buffer.
\<close>

definition frame :: "VirtualEditor \<Rightarrow> VirtualEditor \<Rightarrow> bool" where
  "frame s s' =
     (codeLines s' = codeLines s \<and> heapNext s' = heapNext s \<and>
      actionsApplied s' = actionsApplied s \<and>
      editorActionsApplied s' = editorActionsApplied s \<and>
      codeLinesHistory s' = codeLinesHistory s \<and>
      highlightHistory s' = highlightHistory s \<and>
      caretPositionHistory s' = caretPositionHistory s \<and>
      highlightStartPositionHistory s' = highlightStartPositionHistory s \<and>
      (\<forall>r. r = codeLines s \<or> heap s' r = heap s r))"

text \<open>The names of the four selection-extending actions.\<close>

definition isShiftArrow :: "IAction \<Rightarrow> bool" where
  "isShiftArrow action =
     (name action = ''editor-shift+arrow-left'' \<or> name action = ''editor-shift+arrow-right'' \<or>
      name action = ''editor-shift+arrow-down'' \<or> name action = ''editor-shift+arrow-up'')"

text \<open>
  An instance of the types package for the closed examples, in agreement with the
  repository's tests: typing is not repeated, and the editor actions are those named
  \<open>editor-...\<close>; for the older engine's names, the speak actions are the three
  \<open>speak-...\<close> names and every other action is a code action. The general theorems hold
  for every package.
\<close>

definition examplePackage :: types_package where
  "examplePackage =
     \<lparr>isRepeatableAction = (\<lambda>a. name a \<noteq> ''editor-type'' \<and> name a \<noteq> ''type-editor''),
      isEditorAction = (\<lambda>a. take 7 (name a) = ''editor-''),
      isCodeAction = (\<lambda>a. take 6 (name a) \<noteq> ''speak-''),
      isSpeakAction = (\<lambda>a. take 6 (name a) = ''speak-'')\<rparr>"

section \<open>Evaluation\<close>

lemmas js_defs = at_def substring_def substringFrom_def splice_def iterations_def

lemmas engine_defs = getCodeLines_def lineAt_def lineCount_def setLine_def spliceLines_def
  clearCurrentHighlightedCode_def highlightedLine_def calculateHighlightedText_def
  setHighlightedCode_def deleteRange_def enterHighlight_def enterStep_def editorEnter_def
  typeDeleteHighlight_def typeStep_def editorType_def arrowDownStep_def arrowUpStep_def
  arrowRightStep_def arrowLeftStep_def thenClear_def backspaceStep_def editorBackspace_def
  insertCharStep_def spaceDeleteHighlight_def editorSpace_def editorTab_def commandLeftStep_def
  commandRightStep_def startHighlight_def shiftLeftStep_def shiftRightStep_def shiftDownStep_def
  shiftUpStep_def shiftArrow_def switchAction_def applyAction_def construct_def
  getCode_def getCurrentCaretPosition_def getIsSaved_def getCurrentHighlightedCode_def
  getCodeAtActionIndex_def getHighlightedCodeAtActionIndex_def

text \<open>What \<open>recordStep\<close> leaves and what it appends, field by field.\<close>

lemma recordStep_fields:
  "caretRow (recordStep T a s) = caretRow s"
  "caretCol (recordStep T a s) = caretCol s"
  "highlightStartRow (recordStep T a s) = highlightStartRow s"
  "highlightStartCol (recordStep T a s) = highlightStartCol s"
  "codeLines (recordStep T a s) = codeLines s"
  "currentlyHighlightedCode (recordStep T a s) = currentlyHighlightedCode s"
  "isSaved (recordStep T a s) = isSaved s"
  "isEditorContextMenuOpen (recordStep T a s) = isEditorContextMenuOpen s"
  "actionsApplied (recordStep T a s) = actionsApplied s @ [a]"
  "codeLinesHistory (recordStep T a s) = codeLinesHistory s @ [heapNext s]"
  "highlightHistory (recordStep T a s) = highlightHistory s @ [Suc (heapNext s)]"
  "heapNext (recordStep T a s) = Suc (Suc (heapNext s))"
  "heap (recordStep T a s) =
     (heap s)(heapNext s := getCodeLines s,
              Suc (heapNext s) :=
                (if currentlyHighlightedCode s = [] then [[]] else [currentlyHighlightedCode s]))"
  by (simp_all add: recordStep_def)

lemma repeat_numeral:
  "repeat (numeral k) body s =
     (case body s of Inl e \<Rightarrow> Inl e | Inr s' \<Rightarrow> repeat (pred_numeral k) body s')"
  by (simp add: numeral_eq_Suc)

lemmas eval_simps = engine_defs js_defs recordStep_fields repeat_numeral Let_def

lemma parseInt_1: "parseInt ''1'' = Some 1"
  by (simp add: parseInt_def isWhiteSpace_def digitValue_def)

lemma parseInt_abc: "parseInt ''abc'' = None"
  by (simp add: parseInt_def isWhiteSpace_def digitValue_def)

section \<open>Loops and the shape of a successful call\<close>

lemma repeat_preserves:
  assumes "\<forall>s s'. P s \<longrightarrow> body s = Inr s' \<longrightarrow> P s'"
  shows "P s \<Longrightarrow> repeat n body s = Inr s' \<Longrightarrow> P s'"
proof (induction n arbitrary: s)
  case 0
  then show ?case by simp
next
  case (Suc n)
  from Suc.prems(2) obtain s1 where s1: "body s = Inr s1" "repeat n body s1 = Inr s'"
    by (auto split: sum.splits)
  from assms Suc.prems(1) s1(1) have "P s1" by blast
  from Suc.IH [OF this s1(2)] show ?case .
qed

lemma thenClear_Inr:
  assumes "thenClear r = Inr s'"
  obtains s1 where "r = Inr s1" "s' = clearCurrentHighlightedCode s1"
  using assms by (auto simp: thenClear_def split: sum.splits)

lemma shiftArrow_Inr:
  assumes "shiftArrow n body s = Inr s'"
  obtains s1 where "repeat n body (startHighlight s) = Inr s1" "setHighlightedCode s1 = Inr s'"
  using assms by (auto simp: shiftArrow_def split: sum.splits)

lemma editorType_Inr:
  assumes "editorType n v s = Inr s'"
  obtains s1 where "typeDeleteHighlight (s\<lparr>isSaved := False\<rparr>) = Inr s1"
    "repeat (iterations n) (typeStep v (split v)) s1 = Inr s'"
  using assms by (auto simp: editorType_def split: sum.splits)

lemma editorSpace_Inr:
  assumes "editorSpace n s = Inr s'"
  obtains s1 where "spaceDeleteHighlight (s\<lparr>isSaved := False\<rparr>) = Inr s1"
    "repeat (iterations n) (insertCharStep CHR '' '') s1 = Inr s'"
  using assms by (auto simp: editorSpace_def split: sum.splits)

lemma applyAction_Inr:
  assumes "applyAction T a s = Inr s'"
  obtains n c s1 where
    "switchAction a n c (s\<lparr>currentlyHighlightedCode := []\<rparr>) = Inr s1"
    "s' = recordStep T a s1"
    "n = (if isRepeatableAction T a then parseInt (value a) else Some 1)"
  using assms by (auto simp: applyAction_def Let_def split: sum.splits)

lemma switchAction_names:
  "name a = ''editor-show-context-menu'' \<Longrightarrow> switchAction a n c s = Inr (s\<lparr>isEditorContextMenuOpen := True\<rparr>)"
  "name a = ''editor-hide-context-menu'' \<Longrightarrow> switchAction a n c s = Inr (s\<lparr>isEditorContextMenuOpen := False\<rparr>)"
  "name a = ''editor-enter'' \<Longrightarrow> switchAction a n c s = editorEnter n s"
  "name a = ''editor-type'' \<Longrightarrow> switchAction a n c s = editorType n (value a) s"
  "name a = ''editor-arrow-down'' \<Longrightarrow> switchAction a n c s = thenClear (repeat (iterations n) arrowDownStep s)"
  "name a = ''editor-arrow-up'' \<Longrightarrow> switchAction a n c s = thenClear (repeat (iterations n) arrowUpStep s)"
  "name a = ''editor-arrow-right'' \<Longrightarrow> switchAction a n c s = thenClear (repeat (iterations n) (arrowRightStep c) s)"
  "name a = ''editor-arrow-left'' \<Longrightarrow> switchAction a n c s = thenClear (repeat (iterations n) arrowLeftStep s)"
  "name a = ''editor-backspace'' \<Longrightarrow> switchAction a n c s = editorBackspace n s"
  "name a = ''editor-space'' \<Longrightarrow> switchAction a n c s = editorSpace n s"
  "name a = ''editor-tab'' \<Longrightarrow> switchAction a n c s = editorTab n s"
  "name a = ''editor-command-left'' \<Longrightarrow> switchAction a n c s = thenClear (repeat (iterations n) commandLeftStep s)"
  "name a = ''editor-command-right'' \<Longrightarrow> switchAction a n c s = thenClear (repeat (iterations n) commandRightStep s)"
  "name a = ''editor-shift+arrow-left'' \<Longrightarrow> switchAction a n c s = shiftArrow (iterations n) shiftLeftStep s"
  "name a = ''editor-shift+arrow-right'' \<Longrightarrow> switchAction a n c s = shiftArrow (iterations n) shiftRightStep s"
  "name a = ''editor-shift+arrow-down'' \<Longrightarrow> switchAction a n c s = shiftArrow (iterations n) shiftDownStep s"
  "name a = ''editor-shift+arrow-up'' \<Longrightarrow> switchAction a n c s = shiftArrow (iterations n) shiftUpStep s"
  "name a = ''editor-save'' \<Longrightarrow> switchAction a n c s = Inr (s\<lparr>isSaved := True\<rparr>)"
  by (simp_all add: switchAction_def)

lemma switchAction_other:
  "name a \<notin> set [''editor-show-context-menu'',
      ''editor-hide-context-menu'',
      ''editor-enter'',
      ''editor-type'',
      ''editor-arrow-down'',
      ''editor-arrow-up'',
      ''editor-arrow-right'',
      ''editor-arrow-left'',
      ''editor-backspace'',
      ''editor-space'',
      ''editor-tab'',
      ''editor-command-left'',
      ''editor-command-right'',
      ''editor-shift+arrow-left'',
      ''editor-shift+arrow-right'',
      ''editor-shift+arrow-down'',
      ''editor-shift+arrow-up'',
      ''editor-save'']
   \<Longrightarrow> switchAction a n c s = Inr s"
  by (simp add: switchAction_def)

lemma switchAction_cases [consumes 1, case_names showMenu hideMenu enter type down up right left backspace space tab commandLeft commandRight shiftLeft shiftRight shiftDown shiftUp save other]:
  assumes "switchAction a n c s = Inr s'"
  obtains "name a = ''editor-show-context-menu''" "s' = s\<lparr>isEditorContextMenuOpen := True\<rparr>"
  | "name a = ''editor-hide-context-menu''" "s' = s\<lparr>isEditorContextMenuOpen := False\<rparr>"
  | "name a = ''editor-enter''" "editorEnter n s = Inr s'"
  | "name a = ''editor-type''" "editorType n (value a) s = Inr s'"
  | "name a = ''editor-arrow-down''" "thenClear (repeat (iterations n) arrowDownStep s) = Inr s'"
  | "name a = ''editor-arrow-up''" "thenClear (repeat (iterations n) arrowUpStep s) = Inr s'"
  | "name a = ''editor-arrow-right''" "thenClear (repeat (iterations n) (arrowRightStep c) s) = Inr s'"
  | "name a = ''editor-arrow-left''" "thenClear (repeat (iterations n) arrowLeftStep s) = Inr s'"
  | "name a = ''editor-backspace''" "editorBackspace n s = Inr s'"
  | "name a = ''editor-space''" "editorSpace n s = Inr s'"
  | "name a = ''editor-tab''" "editorTab n s = Inr s'"
  | "name a = ''editor-command-left''" "thenClear (repeat (iterations n) commandLeftStep s) = Inr s'"
  | "name a = ''editor-command-right''" "thenClear (repeat (iterations n) commandRightStep s) = Inr s'"
  | "name a = ''editor-shift+arrow-left''" "shiftArrow (iterations n) shiftLeftStep s = Inr s'"
  | "name a = ''editor-shift+arrow-right''" "shiftArrow (iterations n) shiftRightStep s = Inr s'"
  | "name a = ''editor-shift+arrow-down''" "shiftArrow (iterations n) shiftDownStep s = Inr s'"
  | "name a = ''editor-shift+arrow-up''" "shiftArrow (iterations n) shiftUpStep s = Inr s'"
  | "name a = ''editor-save''" "s' = s\<lparr>isSaved := True\<rparr>"
  | "s' = s"
proof -
  consider
    (c1) "name a = ''editor-show-context-menu''"
    | (c2) "name a = ''editor-hide-context-menu''"
    | (c3) "name a = ''editor-enter''"
    | (c4) "name a = ''editor-type''"
    | (c5) "name a = ''editor-arrow-down''"
    | (c6) "name a = ''editor-arrow-up''"
    | (c7) "name a = ''editor-arrow-right''"
    | (c8) "name a = ''editor-arrow-left''"
    | (c9) "name a = ''editor-backspace''"
    | (c10) "name a = ''editor-space''"
    | (c11) "name a = ''editor-tab''"
    | (c12) "name a = ''editor-command-left''"
    | (c13) "name a = ''editor-command-right''"
    | (c14) "name a = ''editor-shift+arrow-left''"
    | (c15) "name a = ''editor-shift+arrow-right''"
    | (c16) "name a = ''editor-shift+arrow-down''"
    | (c17) "name a = ''editor-shift+arrow-up''"
    | (c18) "name a = ''editor-save''"
    | (c19) "name a \<notin> set [''editor-show-context-menu'',
      ''editor-hide-context-menu'',
      ''editor-enter'',
      ''editor-type'',
      ''editor-arrow-down'',
      ''editor-arrow-up'',
      ''editor-arrow-right'',
      ''editor-arrow-left'',
      ''editor-backspace'',
      ''editor-space'',
      ''editor-tab'',
      ''editor-command-left'',
      ''editor-command-right'',
      ''editor-shift+arrow-left'',
      ''editor-shift+arrow-right'',
      ''editor-shift+arrow-down'',
      ''editor-shift+arrow-up'',
      ''editor-save'']"
    by auto
  then show ?thesis
  proof cases
    case c1
    with assms show ?thesis by (intro that(1)) (simp_all add: switchAction_names(1))
    next
    case c2
    with assms show ?thesis by (intro that(2)) (simp_all add: switchAction_names(2))
    next
    case c3
    with assms show ?thesis by (intro that(3)) (simp_all add: switchAction_names(3))
    next
    case c4
    with assms show ?thesis by (intro that(4)) (simp_all add: switchAction_names(4))
    next
    case c5
    with assms show ?thesis by (intro that(5)) (simp_all add: switchAction_names(5))
    next
    case c6
    with assms show ?thesis by (intro that(6)) (simp_all add: switchAction_names(6))
    next
    case c7
    with assms show ?thesis by (intro that(7)) (simp_all add: switchAction_names(7))
    next
    case c8
    with assms show ?thesis by (intro that(8)) (simp_all add: switchAction_names(8))
    next
    case c9
    with assms show ?thesis by (intro that(9)) (simp_all add: switchAction_names(9))
    next
    case c10
    with assms show ?thesis by (intro that(10)) (simp_all add: switchAction_names(10))
    next
    case c11
    with assms show ?thesis by (intro that(11)) (simp_all add: switchAction_names(11))
    next
    case c12
    with assms show ?thesis by (intro that(12)) (simp_all add: switchAction_names(12))
    next
    case c13
    with assms show ?thesis by (intro that(13)) (simp_all add: switchAction_names(13))
    next
    case c14
    with assms show ?thesis by (intro that(14)) (simp_all add: switchAction_names(14))
    next
    case c15
    with assms show ?thesis by (intro that(15)) (simp_all add: switchAction_names(15))
    next
    case c16
    with assms show ?thesis by (intro that(16)) (simp_all add: switchAction_names(16))
    next
    case c17
    with assms show ?thesis by (intro that(17)) (simp_all add: switchAction_names(17))
    next
    case c18
    with assms show ?thesis by (intro that(18)) (simp_all add: switchAction_names(18))
  next
    case c19
    with assms show ?thesis by (intro that(19)) (simp add: switchAction_other)
  qed
qed

text \<open>The steps that run only without a highlight leave it absent.\<close>

lemma steps_no_highlight:
  "enterStep s = Inr s' \<Longrightarrow> highlightStartRow s' = highlightStartRow s"
  "backspaceStep s = Inr s' \<Longrightarrow> highlightStartRow s' = highlightStartRow s"
  "typeDeleteHighlight s = Inr s' \<Longrightarrow> highlightStartRow s' = - 1"
  by (auto simp: enterStep_def backspaceStep_def typeDeleteHighlight_def setLine_def
      spliceLines_def clearCurrentHighlightedCode_def Let_def split: option.splits if_splits)

lemma typeRemainingLines_highlight:
  "highlightStartRow (typeRemainingLines ls rest s) = highlightStartRow s"
  by (induction ls rest s rule: typeRemainingLines.induct) (simp_all add: spliceLines_def Let_def)

lemma typeStep_no_highlight:
  "typeStep v ls s = Inr s' \<Longrightarrow> highlightStartRow s' = highlightStartRow s"
  by (auto simp: typeStep_def typeRemainingLines_highlight setLine_def Let_def
      split: option.splits list.splits)

text \<open>
  A property that every step of every case keeps is kept by the \<open>switch\<close>. The steps of
  \<open>editor-enter\<close>, \<open>editor-type\<close> and \<open>editor-backspace\<close> that run only without a highlight
  need to keep it only then; \<open>setHighlightedCode\<close> needs to keep it only for the shift+arrow
  actions, the only ones that call it.
\<close>

lemma switchAction_preserves:
  fixes P :: "VirtualEditor \<Rightarrow> bool"
  assumes upd:
      "\<And>s b. P s \<Longrightarrow> P (s\<lparr>isEditorContextMenuOpen := b\<rparr>)"
      "\<And>s b. P s \<Longrightarrow> P (s\<lparr>isSaved := b\<rparr>)"
      "\<And>s. P s \<Longrightarrow> P (clearCurrentHighlightedCode s)"
      "\<And>s. P s \<Longrightarrow> P (startHighlight s)"
    and entering:
      "\<And>s s'. P s \<Longrightarrow> highlightStartRow s = - 1 \<Longrightarrow> enterStep s = Inr s' \<Longrightarrow> P s'"
      "\<And>s s' n. P s \<Longrightarrow> enterHighlight n s = Inr s' \<Longrightarrow> P s'"
    and typing:
      "\<And>s s'. P s \<Longrightarrow> typeDeleteHighlight s = Inr s' \<Longrightarrow> P s'"
      "\<And>s s' v ls. P s \<Longrightarrow> highlightStartRow s = - 1 \<Longrightarrow> typeStep v ls s = Inr s' \<Longrightarrow> P s'"
    and arrows:
      "\<And>s s'. P s \<Longrightarrow> arrowDownStep s = Inr s' \<Longrightarrow> P s'"
      "\<And>s s'. P s \<Longrightarrow> arrowUpStep s = Inr s' \<Longrightarrow> P s'"
      "\<And>s s' c. P s \<Longrightarrow> arrowRightStep c s = Inr s' \<Longrightarrow> P s'"
      "\<And>s s'. P s \<Longrightarrow> arrowLeftStep s = Inr s' \<Longrightarrow> P s'"
      "\<And>s s'. P s \<Longrightarrow> commandLeftStep s = Inr s' \<Longrightarrow> P s'"
      "\<And>s s'. P s \<Longrightarrow> commandRightStep s = Inr s' \<Longrightarrow> P s'"
    and edit:
      "\<And>s s'. P s \<Longrightarrow> highlightStartRow s = - 1 \<Longrightarrow> backspaceStep s = Inr s' \<Longrightarrow> P s'"
      "\<And>s s' c d. P s \<Longrightarrow> highlightStartRow s \<noteq> - 1 \<Longrightarrow>
          deleteRange (min (highlightStartRow s) (caretRow s))
            (max (highlightStartRow s) (caretRow s)) c d s = Inr s' \<Longrightarrow> P s'"
      "\<And>s s' ch. P s \<Longrightarrow> insertCharStep ch s = Inr s' \<Longrightarrow> P s'"
    and shift:
      "\<And>s s'. P s \<Longrightarrow> shiftLeftStep s = Inr s' \<Longrightarrow> P s'"
      "\<And>s s'. P s \<Longrightarrow> shiftRightStep s = Inr s' \<Longrightarrow> P s'"
      "\<And>s s'. P s \<Longrightarrow> shiftDownStep s = Inr s' \<Longrightarrow> P s'"
      "\<And>s s'. P s \<Longrightarrow> shiftUpStep s = Inr s' \<Longrightarrow> P s'"
      "isShiftArrow a \<longrightarrow> (\<forall>s s'. P s \<longrightarrow> setHighlightedCode s = Inr s' \<longrightarrow> P s')"
    and start: "P s" and run: "switchAction a n c s = Inr s'"
  shows "P s'"
proof -
  let ?u = "s\<lparr>isSaved := False\<rparr>"
  have Pu: "P ?u" by (rule upd(2) [OF start])
  have loop: "P s2"
    if "\<forall>x y. P x \<longrightarrow> body x = Inr y \<longrightarrow> P y" "P s1" "repeat k body s1 = Inr s2"
    for body k s1 s2
    using repeat_preserves [where P = P and body = body] that by blast
  have cleared: "P s2"
    if "thenClear (repeat k body s) = Inr s2" and "\<forall>x y. P x \<longrightarrow> body x = Inr y \<longrightarrow> P y"
    for body k s2
  proof -
    from that(1) obtain s1 where s1: "repeat k body s = Inr s1" "s2 = clearCurrentHighlightedCode s1"
      by (rule thenClear_Inr)
    from loop [OF that(2) start s1(1)] show ?thesis unfolding s1(2) by (rule upd(3))
  qed
  have shifted: "P s2"
    if "shiftArrow k body s = Inr s2" and "isShiftArrow a"
      and "\<forall>x y. P x \<longrightarrow> body x = Inr y \<longrightarrow> P y"
    for body k s2
  proof -
    from that(1) obtain s1 where
      s1: "repeat k body (startHighlight s) = Inr s1" "setHighlightedCode s1 = Inr s2"
      by (rule shiftArrow_Inr)
    from loop [OF that(3) upd(4) [OF start] s1(1)] have "P s1" .
    with shift(5) that(2) s1(2) show ?thesis by blast
  qed
  have loop0: "P s2"
    if "P s1" "highlightStartRow s1 = - 1" "repeat k body s1 = Inr s2"
      and "\<forall>x y. (P x \<and> highlightStartRow x = - 1) \<longrightarrow> body x = Inr y \<longrightarrow>
             (P y \<and> highlightStartRow y = - 1)"
    for body k s1 s2
    using repeat_preserves [where P = "\<lambda>x. P x \<and> highlightStartRow x = - 1", OF that(4) _ that(3)]
      that(1,2) by blast
  have enterStep_P: "\<forall>x y. (P x \<and> highlightStartRow x = - 1) \<longrightarrow> enterStep x = Inr y \<longrightarrow>
      (P y \<and> highlightStartRow y = - 1)"
    using entering(1) steps_no_highlight(1) by metis
  have backspaceStep_P: "\<forall>x y. (P x \<and> highlightStartRow x = - 1) \<longrightarrow> backspaceStep x = Inr y \<longrightarrow>
      (P y \<and> highlightStartRow y = - 1)"
    using edit(1) steps_no_highlight(2) by metis
  have typeStep_P: "\<forall>x y. (P x \<and> highlightStartRow x = - 1) \<longrightarrow> typeStep v ls x = Inr y \<longrightarrow>
      (P y \<and> highlightStartRow y = - 1)" for v ls
    using typing(2) typeStep_no_highlight by metis
  have insertCharStep_P: "\<forall>x y. P x \<longrightarrow> insertCharStep ch x = Inr y \<longrightarrow> P y" for ch
    using edit(3) by blast
  have arrows_P:
    "\<forall>x y. P x \<longrightarrow> arrowDownStep x = Inr y \<longrightarrow> P y"
    "\<forall>x y. P x \<longrightarrow> arrowUpStep x = Inr y \<longrightarrow> P y"
    "\<forall>x y. P x \<longrightarrow> arrowRightStep c x = Inr y \<longrightarrow> P y"
    "\<forall>x y. P x \<longrightarrow> arrowLeftStep x = Inr y \<longrightarrow> P y"
    "\<forall>x y. P x \<longrightarrow> commandLeftStep x = Inr y \<longrightarrow> P y"
    "\<forall>x y. P x \<longrightarrow> commandRightStep x = Inr y \<longrightarrow> P y"
    using arrows by blast+
  have shift_P:
    "\<forall>x y. P x \<longrightarrow> shiftLeftStep x = Inr y \<longrightarrow> P y"
    "\<forall>x y. P x \<longrightarrow> shiftRightStep x = Inr y \<longrightarrow> P y"
    "\<forall>x y. P x \<longrightarrow> shiftDownStep x = Inr y \<longrightarrow> P y"
    "\<forall>x y. P x \<longrightarrow> shiftUpStep x = Inr y \<longrightarrow> P y"
    using shift(1-4) by blast+
  from run show ?thesis
  proof (cases rule: switchAction_cases)
    case showMenu
    then show ?thesis by (simp add: upd(1) [OF start])
  next
    case hideMenu
    then show ?thesis by (simp add: upd(1) [OF start])
  next
    case enter
    show ?thesis
    proof (cases "highlightStartRow s = - 1")
      case True
      with enter(2) have "repeat (iterations n) enterStep ?u = Inr s'"
        by (simp add: editorEnter_def)
      from loop0 [OF Pu _ this enterStep_P] True show ?thesis by simp
    next
      case False
      with enter(2) have "enterHighlight n ?u = Inr s'"
        by (simp add: editorEnter_def)
      from entering(2) [OF Pu this] show ?thesis .
    qed
  next
    case type
    from type(2) obtain s1 where s1: "typeDeleteHighlight ?u = Inr s1"
      "repeat (iterations n) (typeStep (value a) (split (value a))) s1 = Inr s'"
      by (rule editorType_Inr)
    have "P s1" by (rule typing(1) [OF Pu s1(1)])
    moreover have "highlightStartRow s1 = - 1" by (rule steps_no_highlight(3) [OF s1(1)])
    ultimately show ?thesis
      using loop0 [OF _ _ s1(2) typeStep_P] by blast
  next
    case down
    from cleared [OF down(2) arrows_P(1)] show ?thesis .
  next
    case up
    from cleared [OF up(2) arrows_P(2)] show ?thesis .
  next
    case right
    from cleared [OF right(2) arrows_P(3)] show ?thesis .
  next
    case left
    from cleared [OF left(2) arrows_P(4)] show ?thesis .
  next
    case backspace
    show ?thesis
    proof (cases "highlightStartRow s = - 1")
      case True
      with backspace(2) have "repeat (iterations n) backspaceStep ?u = Inr s'"
        by (simp add: editorBackspace_def)
      from loop0 [OF Pu _ this backspaceStep_P] True show ?thesis by simp
    next
      case False
      with backspace(2) obtain c d where
        "deleteRange (min (highlightStartRow ?u) (caretRow ?u))
           (max (highlightStartRow ?u) (caretRow ?u)) c d ?u = Inr s'"
        by (simp add: editorBackspace_def Let_def)
      from edit(2) [OF Pu _ this] False show ?thesis by simp
    qed
  next
    case space
    from space(2) obtain s1 where s1: "spaceDeleteHighlight ?u = Inr s1"
      "repeat (iterations n) (insertCharStep CHR '' '') s1 = Inr s'"
      by (rule editorSpace_Inr)
    have "P s1"
    proof (cases "highlightStartRow s = - 1")
      case True
      with s1(1) Pu show ?thesis by (simp add: spaceDeleteHighlight_def)
    next
      case False
      with s1(1) obtain c d where
        "deleteRange (min (highlightStartRow ?u) (caretRow ?u))
           (max (highlightStartRow ?u) (caretRow ?u)) c d ?u = Inr s1"
        by (simp add: spaceDeleteHighlight_def Let_def)
      from edit(2) [OF Pu _ this] False show ?thesis by simp
    qed
    from loop [OF insertCharStep_P this s1(2)] show ?thesis .
  next
    case tab
    from tab(2) have "repeat (iterations n) (insertCharStep (CHR 0x09)) s = Inr s'"
      by (simp add: editorTab_def)
    from loop [OF insertCharStep_P start this] show ?thesis .
  next
    case commandLeft
    from cleared [OF commandLeft(2) arrows_P(5)] show ?thesis .
  next
    case commandRight
    from cleared [OF commandRight(2) arrows_P(6)] show ?thesis .
  next
    case shiftLeft
    from shiftLeft(1) have "isShiftArrow a" by (simp add: isShiftArrow_def)
    from shifted [OF shiftLeft(2) this shift_P(1)] show ?thesis .
  next
    case shiftRight
    from shiftRight(1) have "isShiftArrow a" by (simp add: isShiftArrow_def)
    from shifted [OF shiftRight(2) this shift_P(2)] show ?thesis .
  next
    case shiftDown
    from shiftDown(1) have "isShiftArrow a" by (simp add: isShiftArrow_def)
    from shifted [OF shiftDown(2) this shift_P(3)] show ?thesis .
  next
    case shiftUp
    from shiftUp(1) have "isShiftArrow a" by (simp add: isShiftArrow_def)
    from shifted [OF shiftUp(2) this shift_P(4)] show ?thesis .
  next
    case save
    then show ?thesis by (simp add: upd(2) [OF start])
  next
    case other
    with start show ?thesis by simp
  qed
qed

section \<open>The frame of the switch\<close>

lemma frame_refl: "frame s s"
  by (simp add: frame_def)

lemma frame_trans: "frame s s1 \<Longrightarrow> frame s1 s2 \<Longrightarrow> frame s s2"
  unfolding frame_def by (intro conjI allI; metis)

lemma frame_updates:
  "frame s (setLine r v s)"
  "frame s (spliceLines a d xs s)"
  "frame s (clearCurrentHighlightedCode s)"
  "frame s (startHighlight s)"
  "frame s (s\<lparr>caretRow := r\<rparr>)"
  "frame s (s\<lparr>caretCol := c\<rparr>)"
  "frame s (s\<lparr>isSaved := b\<rparr>)"
  "frame s (s\<lparr>isEditorContextMenuOpen := b\<rparr>)"
  "frame s (s\<lparr>currentlyHighlightedCode := t\<rparr>)"
  by (simp_all add: frame_def setLine_def spliceLines_def clearCurrentHighlightedCode_def
      startHighlight_def)

lemma frame_typeRemainingLines: "frame s (typeRemainingLines ls rest s)"
proof (induction ls rest s rule: typeRemainingLines.induct)
  case (1 restOfLine s)
  then show ?case by (simp add: frame_refl)
next
  case (2 l restOfLine s)
  then show ?case by (simp add: frame_def spliceLines_def Let_def)
next
  case (3 l v va restOfLine s)
  have "frame s (spliceLines (caretRow s + 1) 0 [l] (s\<lparr>caretRow := caretRow s + 1\<rparr>))"
    by (simp add: frame_def spliceLines_def)
  with 3 show ?case by (auto simp: Let_def intro: frame_trans)
qed

lemma steps_frame:
  "enterStep s = Inr s' \<Longrightarrow> frame s s'"
  "arrowDownStep s = Inr s' \<Longrightarrow> frame s s'"
  "arrowUpStep s = Inr s' \<Longrightarrow> frame s s'"
  "arrowRightStep c s = Inr s' \<Longrightarrow> frame s s'"
  "arrowLeftStep s = Inr s' \<Longrightarrow> frame s s'"
  "backspaceStep s = Inr s' \<Longrightarrow> frame s s'"
  "insertCharStep ch s = Inr s' \<Longrightarrow> frame s s'"
  "commandLeftStep s = Inr s' \<Longrightarrow> frame s s'"
  "commandRightStep s = Inr s' \<Longrightarrow> frame s s'"
  "shiftLeftStep s = Inr s' \<Longrightarrow> frame s s'"
  "shiftRightStep s = Inr s' \<Longrightarrow> frame s s'"
  "shiftDownStep s = Inr s' \<Longrightarrow> frame s s'"
  "shiftUpStep s = Inr s' \<Longrightarrow> frame s s'"
  "setHighlightedCode s = Inr s' \<Longrightarrow> frame s s'"
  "deleteRange a b c d s = Inr s' \<Longrightarrow> frame s s'"
  "typeDeleteHighlight s = Inr s' \<Longrightarrow> frame s s'"
  "enterHighlight n s = Inr s' \<Longrightarrow> frame s s'"
  by (auto simp: enterStep_def arrowDownStep_def arrowUpStep_def arrowRightStep_def arrowLeftStep_def
      backspaceStep_def insertCharStep_def commandLeftStep_def commandRightStep_def shiftLeftStep_def
      shiftRightStep_def shiftDownStep_def shiftUpStep_def setHighlightedCode_def deleteRange_def
      typeDeleteHighlight_def enterHighlight_def
      frame_def setLine_def spliceLines_def clearCurrentHighlightedCode_def Let_def
      split: option.splits if_splits sum.splits)

lemma typeStep_frame:
  assumes "typeStep v ls s = Inr s'"
  shows "frame s s'"
proof -
  obtain l where l: "lineAt s (caretRow s) = Some l"
    using assms by (auto simp: typeStep_def split: option.splits)
  show ?thesis
  proof (cases ls)
    case Nil
    with assms l show ?thesis by (simp add: typeStep_def frame_refl)
  next
    case (Cons l0 rest)
    show ?thesis
    proof (cases rest)
      case Nil
      with assms l Cons show ?thesis
        by (auto simp: typeStep_def intro: frame_trans [OF frame_updates(1) frame_updates(6)])
    next
      case (Cons l1 rest')
      with assms l \<open>ls = l0 # rest\<close> show ?thesis
        by (auto simp: typeStep_def Let_def intro: frame_trans [OF frame_updates(1) frame_typeRemainingLines])
    qed
  qed
qed

lemma switchAction_frame:
  assumes "switchAction a n c s = Inr s'"
  shows "frame s s'"
proof (rule switchAction_preserves [where P = "frame s" and s = s, OF _ _ _ _ _ _ _ _ _ _ _ _ _ _ _ _ _ _ _ _ _ _ frame_refl assms])
  show "isShiftArrow a \<longrightarrow> (\<forall>x y. frame s x \<longrightarrow> setHighlightedCode x = Inr y \<longrightarrow> frame s y)"
    using frame_trans steps_frame(14) by blast
qed (blast intro: frame_trans frame_updates steps_frame typeStep_frame)+

lemma applyAction_frame:
  assumes "applyAction T a s = Inr s'"
  shows "codeLines s' = codeLines s"
    and "heapNext s' = Suc (Suc (heapNext s))"
    and "actionsApplied s' = actionsApplied s @ [a]"
    and "codeLinesHistory s' = codeLinesHistory s @ [heapNext s]"
    and "highlightHistory s' = highlightHistory s @ [Suc (heapNext s)]"
    and "r < heapNext s \<Longrightarrow> r \<noteq> codeLines s \<Longrightarrow> heap s' r = heap s r"
proof -
  from assms obtain n c s1 where
    s1: "switchAction a n c (s\<lparr>currentlyHighlightedCode := []\<rparr>) = Inr s1"
    and s': "s' = recordStep T a s1"
    by (rule applyAction_Inr)
  from switchAction_frame [OF s1] have f: "frame s s1"
    by (rule frame_trans [OF frame_updates(9)])
  from f show "codeLines s' = codeLines s" "heapNext s' = Suc (Suc (heapNext s))"
    "actionsApplied s' = actionsApplied s @ [a]"
    "codeLinesHistory s' = codeLinesHistory s @ [heapNext s]"
    "highlightHistory s' = highlightHistory s @ [Suc (heapNext s)]"
    by (simp_all add: s' recordStep_fields frame_def)
  show "heap s' r = heap s r" if "r < heapNext s" "r \<noteq> codeLines s"
    using f that by (auto simp: s' recordStep_fields frame_def)
qed

section \<open>The rows stay inside the buffer\<close>

lemma length_splice:
  "int (length (splice xs st d items)) =
     int (length xs) + int (length items) -
     min (max d 0) (int (length xs) - (if st < 0 then max (int (length xs) + st) 0 else min st (int (length xs))))"
  by (auto simp: splice_def Let_def min_def max_def)

lemma lineCount_updates:
  "lineCount (setLine r v s) = lineCount s"
  "lineCount (spliceLines st d items s) =
     lineCount s + int (length items) -
     min (max d 0) (lineCount s - (if st < 0 then max (lineCount s + st) 0 else min st (lineCount s)))"
  "lineCount (clearCurrentHighlightedCode s) = lineCount s"
  "lineCount (startHighlight s) = lineCount s"
  by (simp_all add: lineCount_def getCodeLines_def setLine_def spliceLines_def
      clearCurrentHighlightedCode_def startHighlight_def length_splice)

lemma lineCount_field_updates:
  "lineCount (s\<lparr>caretRow := r\<rparr>) = lineCount s"
  "lineCount (s\<lparr>caretCol := c\<rparr>) = lineCount s"
  "lineCount (s\<lparr>isSaved := b\<rparr>) = lineCount s"
  "lineCount (s\<lparr>isEditorContextMenuOpen := b\<rparr>) = lineCount s"
  "lineCount (s\<lparr>currentlyHighlightedCode := t\<rparr>) = lineCount s"
  "lineCount (s\<lparr>highlightStartRow := r\<rparr>) = lineCount s"
  "lineCount (s\<lparr>highlightStartCol := c\<rparr>) = lineCount s"
  by (simp_all add: lineCount_def getCodeLines_def)

lemma lineAt_Some: "lineAt s r = Some l \<Longrightarrow> 0 \<le> r \<and> r < lineCount s"
  by (auto simp: lineAt_def at_def lineCount_def split: if_splits)

lemma rows_fields:
  "caretRow (setLine r v s) = caretRow s"
  "highlightStartRow (setLine r v s) = highlightStartRow s"
  "caretRow (spliceLines st d items s) = caretRow s"
  "highlightStartRow (spliceLines st d items s) = highlightStartRow s"
  "caretRow (clearCurrentHighlightedCode s) = caretRow s"
  "highlightStartRow (clearCurrentHighlightedCode s) = - 1"
  by (simp_all add: setLine_def spliceLines_def clearCurrentHighlightedCode_def)

lemma typeRemainingLines_rows:
  "0 \<le> caretRow s \<Longrightarrow> caretRow s < lineCount s \<Longrightarrow>
   caretRow (typeRemainingLines ls rest s) = caretRow s + int (length ls) \<and>
   lineCount (typeRemainingLines ls rest s) = lineCount s + int (length ls)"
proof (induction ls rest s rule: typeRemainingLines.induct)
  case (1 restOfLine s)
  then show ?case by simp
next
  case (2 l restOfLine s)
  then show ?case
    by (simp add: Let_def lineCount_updates lineCount_field_updates rows_fields)
next
  case (3 l v va restOfLine s)
  let ?s2 = "spliceLines (caretRow s + 1) 0 [l] (s\<lparr>caretRow := caretRow s + 1\<rparr>)"
  have c: "caretRow ?s2 = caretRow s + 1" by (simp add: rows_fields)
  have n: "lineCount ?s2 = lineCount s + 1"
    using 3(2,3) by (simp add: lineCount_updates lineCount_field_updates)
  from 3(1) [of "s\<lparr>caretRow := caretRow s + 1\<rparr>" ?s2] c n 3(2,3)
  show ?case by (simp add: Let_def)
qed


lemmas rows_simps = rowsOk_def lineCount_updates lineCount_field_updates rows_fields

lemma rows_updates:
  "rowsOk s \<Longrightarrow> rowsOk (s\<lparr>isEditorContextMenuOpen := b\<rparr>)"
  "rowsOk s \<Longrightarrow> rowsOk (s\<lparr>isSaved := b\<rparr>)"
  "rowsOk s \<Longrightarrow> rowsOk (s\<lparr>currentlyHighlightedCode := t\<rparr>)"
  "rowsOk s \<Longrightarrow> rowsOk (clearCurrentHighlightedCode s)"
  "rowsOk s \<Longrightarrow> rowsOk (startHighlight s)"
  by (auto simp: rows_simps startHighlight_def)

lemma rows_moves:
  "rowsOk s \<Longrightarrow> arrowDownStep s = Inr s' \<Longrightarrow> rowsOk s'"
  "rowsOk s \<Longrightarrow> arrowUpStep s = Inr s' \<Longrightarrow> rowsOk s'"
  "rowsOk s \<Longrightarrow> arrowRightStep c s = Inr s' \<Longrightarrow> rowsOk s'"
  "rowsOk s \<Longrightarrow> arrowLeftStep s = Inr s' \<Longrightarrow> rowsOk s'"
  "rowsOk s \<Longrightarrow> commandLeftStep s = Inr s' \<Longrightarrow> rowsOk s'"
  "rowsOk s \<Longrightarrow> commandRightStep s = Inr s' \<Longrightarrow> rowsOk s'"
  "rowsOk s \<Longrightarrow> shiftLeftStep s = Inr s' \<Longrightarrow> rowsOk s'"
  "rowsOk s \<Longrightarrow> shiftRightStep s = Inr s' \<Longrightarrow> rowsOk s'"
  "rowsOk s \<Longrightarrow> shiftDownStep s = Inr s' \<Longrightarrow> rowsOk s'"
  "rowsOk s \<Longrightarrow> shiftUpStep s = Inr s' \<Longrightarrow> rowsOk s'"
  "rowsOk s \<Longrightarrow> setHighlightedCode s = Inr s' \<Longrightarrow> rowsOk s'"
  by (auto simp: arrowDownStep_def arrowUpStep_def arrowRightStep_def arrowLeftStep_def
      commandLeftStep_def commandRightStep_def shiftLeftStep_def shiftRightStep_def
      shiftDownStep_def shiftUpStep_def setHighlightedCode_def rows_simps Let_def
      split: option.splits if_splits sum.splits)

lemma rows_edits:
  "rowsOk s \<Longrightarrow> highlightStartRow s = - 1 \<Longrightarrow> enterStep s = Inr s' \<Longrightarrow> rowsOk s'"
  "rowsOk s \<Longrightarrow> highlightStartRow s = - 1 \<Longrightarrow> backspaceStep s = Inr s' \<Longrightarrow> rowsOk s'"
  "rowsOk s \<Longrightarrow> insertCharStep ch s = Inr s' \<Longrightarrow> rowsOk s'"
  by (auto simp: enterStep_def backspaceStep_def insertCharStep_def rows_simps Let_def
      dest!: lineAt_Some split: option.splits if_splits)


lemma rows_typeStep:
  assumes "rowsOk s" "highlightStartRow s = - 1" "typeStep v ls s = Inr s'"
  shows "rowsOk s'"
proof -
  obtain l where l: "lineAt s (caretRow s) = Some l"
    using assms(3) by (auto simp: typeStep_def split: option.splits)
  show ?thesis
  proof (cases ls)
    case Nil
    with assms l show ?thesis by (simp add: typeStep_def)
  next
    case (Cons l0 rest)
    show ?thesis
    proof (cases rest)
      case Nil
      with assms l Cons show ?thesis
        by (auto simp: typeStep_def rows_simps)
    next
      case (Cons l1 rest')
      let ?s1 = "setLine (caretRow s) (substring l 0 (caretCol s) @ l0) s"
      from assms(3) l \<open>ls = l0 # rest\<close> Cons
      have s': "s' = typeRemainingLines rest (substringFrom l (caretCol s)) ?s1"
        by (simp add: typeStep_def Let_def)
      have "0 \<le> caretRow ?s1" "caretRow ?s1 < lineCount ?s1"
        using assms(1) by (simp_all add: rows_simps)
      from typeRemainingLines_rows [OF this, of rest "substringFrom l (caretCol s)"]
      show ?thesis
        using assms(1,2)
        by (simp add: s' rowsOk_def typeRemainingLines_highlight rows_fields lineCount_updates)
    qed
  qed
qed

lemma rows_typeDeleteHighlight:
  assumes "rowsOk s" "typeDeleteHighlight s = Inr s'"
  shows "rowsOk s'"
  using assms
  by (auto simp: typeDeleteHighlight_def rows_simps Let_def
      dest!: lineAt_Some split: option.splits if_splits)

lemma rows_deleteRange:
  assumes "rowsOk s" "highlightStartRow s \<noteq> - 1"
    "deleteRange (min (highlightStartRow s) (caretRow s))
       (max (highlightStartRow s) (caretRow s)) c d s = Inr s'"
  shows "rowsOk s'"
  using assms
  by (auto simp: deleteRange_def rows_simps Let_def
      dest!: lineAt_Some split: option.splits if_splits)

lemma rows_enterHighlight:
  assumes "rowsOk s" "enterHighlight n s = Inr s'"
  shows "rowsOk s'"
  using assms
  by (auto simp: enterHighlight_def rows_simps Let_def
      dest!: lineAt_Some split: option.splits if_splits)

lemma switchAction_rows:
  assumes "rowsOk s" "switchAction a n c s = Inr s'"
  shows "rowsOk s'"
proof (rule switchAction_preserves [where P = rowsOk and s = s, OF _ _ _ _ _ _ _ _ _ _ _ _ _ _ _ _ _ _ _ _ _ _ assms])
  show "isShiftArrow a \<longrightarrow> (\<forall>x y. rowsOk x \<longrightarrow> setHighlightedCode x = Inr y \<longrightarrow> rowsOk y)"
    using rows_moves(11) by blast
qed (blast intro: rows_updates rows_moves rows_edits rows_typeStep rows_typeDeleteHighlight
      rows_deleteRange rows_enterHighlight)+

text \<open>The snapshot arrays are new: recording leaves the buffer as it is.\<close>

lemma recordStep_getCodeLines:
  "codeLines s < heapNext s \<Longrightarrow> getCodeLines (recordStep T a s) = getCodeLines s"
  by (simp add: getCodeLines_def recordStep_fields)

lemma recordStep_rows:
  "codeLines s < heapNext s \<Longrightarrow> rowsOk s \<Longrightarrow> rowsOk (recordStep T a s)"
  by (simp add: rowsOk_def lineCount_def recordStep_getCodeLines recordStep_fields)

lemma applyAction_rows:
  assumes "rowsOk s" "codeLines s < heapNext s" "applyAction T a s = Inr s'"
  shows "rowsOk s'"
proof -
  from assms(3) obtain n c s1 where
    s1: "switchAction a n c (s\<lparr>currentlyHighlightedCode := []\<rparr>) = Inr s1"
    and s': "s' = recordStep T a s1"
    by (rule applyAction_Inr)
  from assms(1) have "rowsOk (s\<lparr>currentlyHighlightedCode := []\<rparr>)" by (rule rows_updates(3))
  from switchAction_rows [OF this s1] have r: "rowsOk s1" .
  from switchAction_frame [OF s1] assms(2) have "codeLines s1 < heapNext s1"
    by (simp add: frame_def)
  from recordStep_rows [OF this r] show ?thesis by (simp add: s')
qed

lemma applyAction_heapOk:
  assumes "heapOk s" "applyAction T a s = Inr s'"
  shows "heapOk s'"
  using assms(1) applyAction_frame(1-5) [OF assms(2)]
  by (auto simp: heapOk_def list_all_iff)

lemma applyAction_lengths:
  assumes "applyAction T a s = Inr s'"
  shows "length (codeLinesHistory s') = Suc (length (codeLinesHistory s))"
    and "length (highlightHistory s') = Suc (length (highlightHistory s))"
    and "length (actionsApplied s') = Suc (length (actionsApplied s))"
  using applyAction_frame(3-5) [OF assms] by simp_all

lemma construct_empty:
  "construct T ls [] = Inr s \<Longrightarrow>
     rowsOk s \<and> heapOk s \<and> currentlyHighlightedCode s = [] \<and>
     length (codeLinesHistory s) = length (actionsApplied s) \<and>
     length (highlightHistory s) = length (actionsApplied s)"
  by (auto simp: construct_def rowsOk_def heapOk_def lineCount_def getCodeLines_def Let_def)

text \<open>What holds in every reachable state.\<close>

lemma reachable_invariant:
  assumes "reachable T s"
  shows "rowsOk s \<and> heapOk s \<and>
     length (codeLinesHistory s) = length (actionsApplied s) \<and>
     length (highlightHistory s) = length (actionsApplied s)"
  using assms
proof (induction rule: reachable.induct)
  case (constructed T initialCodeLines s)
  then show ?case using construct_empty by blast
next
  case (applied T s action s')
  then have "codeLines s < heapNext s" by (simp add: heapOk_def)
  with applied show ?case
    using applyAction_rows applyAction_heapOk applyAction_lengths by metis
qed

lemma applyActions_reachable:
  "reachable T s \<Longrightarrow> applyActions T as s = Inr s' \<Longrightarrow> reachable T s'"
proof (induction as arbitrary: s)
  case Nil
  then show ?case by simp
next
  case (Cons a as)
  from Cons.prems(2) obtain s1 where s1: "applyAction T a s = Inr s1" "applyActions T as s1 = Inr s'"
    by (auto split: sum.splits)
  from Cons.IH [OF reachable.applied [OF Cons.prems(1) s1(1)] s1(2)] show ?case .
qed

lemma construct_reachable:
  assumes "construct T ls as = Inr s"
  shows "reachable T s"
proof -
  obtain s0 where s0: "construct T ls [] = Inr s0"
    by (simp add: construct_def Let_def)
  then have "applyActions T as s0 = Inr s"
    using assms by (simp add: construct_def Let_def)
  from applyActions_reachable [OF reachable.constructed [OF s0] this] show ?thesis .
qed


section \<open>The highlighted text\<close>

lemma typeRemainingLines_highlightedCode:
  "currentlyHighlightedCode (typeRemainingLines ls rest s) = currentlyHighlightedCode s"
  by (induction ls rest s rule: typeRemainingLines.induct) (simp_all add: spliceLines_def Let_def)

lemma highlightedCode_fields:
  "currentlyHighlightedCode (setLine r v s) = currentlyHighlightedCode s"
  "currentlyHighlightedCode (spliceLines st d xs s) = currentlyHighlightedCode s"
  "currentlyHighlightedCode (clearCurrentHighlightedCode s) = []"
  "currentlyHighlightedCode (startHighlight s) = currentlyHighlightedCode s"
  by (simp_all add: setLine_def spliceLines_def clearCurrentHighlightedCode_def startHighlight_def)

lemma highlightedCode_moves:
  "currentlyHighlightedCode s = [] \<Longrightarrow> arrowDownStep s = Inr s' \<Longrightarrow> currentlyHighlightedCode s' = []"
  "currentlyHighlightedCode s = [] \<Longrightarrow> arrowUpStep s = Inr s' \<Longrightarrow> currentlyHighlightedCode s' = []"
  "currentlyHighlightedCode s = [] \<Longrightarrow> arrowRightStep c s = Inr s' \<Longrightarrow> currentlyHighlightedCode s' = []"
  "currentlyHighlightedCode s = [] \<Longrightarrow> arrowLeftStep s = Inr s' \<Longrightarrow> currentlyHighlightedCode s' = []"
  "currentlyHighlightedCode s = [] \<Longrightarrow> commandLeftStep s = Inr s' \<Longrightarrow> currentlyHighlightedCode s' = []"
  "currentlyHighlightedCode s = [] \<Longrightarrow> commandRightStep s = Inr s' \<Longrightarrow> currentlyHighlightedCode s' = []"
  "currentlyHighlightedCode s = [] \<Longrightarrow> shiftLeftStep s = Inr s' \<Longrightarrow> currentlyHighlightedCode s' = []"
  "currentlyHighlightedCode s = [] \<Longrightarrow> shiftRightStep s = Inr s' \<Longrightarrow> currentlyHighlightedCode s' = []"
  "currentlyHighlightedCode s = [] \<Longrightarrow> shiftDownStep s = Inr s' \<Longrightarrow> currentlyHighlightedCode s' = []"
  "currentlyHighlightedCode s = [] \<Longrightarrow> shiftUpStep s = Inr s' \<Longrightarrow> currentlyHighlightedCode s' = []"
  by (auto simp: arrowDownStep_def arrowUpStep_def arrowRightStep_def arrowLeftStep_def
      commandLeftStep_def commandRightStep_def shiftLeftStep_def shiftRightStep_def
      shiftDownStep_def shiftUpStep_def Let_def split: option.splits if_splits)

lemma highlightedCode_edits:
  "currentlyHighlightedCode s = [] \<Longrightarrow> enterStep s = Inr s' \<Longrightarrow> currentlyHighlightedCode s' = []"
  "currentlyHighlightedCode s = [] \<Longrightarrow> backspaceStep s = Inr s' \<Longrightarrow> currentlyHighlightedCode s' = []"
  "currentlyHighlightedCode s = [] \<Longrightarrow> insertCharStep ch s = Inr s' \<Longrightarrow> currentlyHighlightedCode s' = []"
  "currentlyHighlightedCode s = [] \<Longrightarrow> typeStep v ls s = Inr s' \<Longrightarrow> currentlyHighlightedCode s' = []"
  by (auto simp: enterStep_def backspaceStep_def insertCharStep_def typeStep_def
      typeRemainingLines_highlightedCode highlightedCode_fields Let_def
      split: option.splits if_splits list.splits)

lemma highlightedCode_deletes:
  "currentlyHighlightedCode s = [] \<Longrightarrow> deleteRange r1 r2 c1 c2 s = Inr s' \<Longrightarrow> currentlyHighlightedCode s' = []"
  "currentlyHighlightedCode s = [] \<Longrightarrow> typeDeleteHighlight s = Inr s' \<Longrightarrow> currentlyHighlightedCode s' = []"
  "currentlyHighlightedCode s = [] \<Longrightarrow> enterHighlight n s = Inr s' \<Longrightarrow> currentlyHighlightedCode s' = []"
  by (auto simp: deleteRange_def typeDeleteHighlight_def enterHighlight_def
      highlightedCode_fields Let_def
      split: option.splits if_splits)


lemma switchAction_highlightedCode:
  assumes "\<not> isShiftArrow a" "currentlyHighlightedCode s = []" "switchAction a n c s = Inr s'"
  shows "currentlyHighlightedCode s' = []"
proof (rule switchAction_preserves [where P = "\<lambda>x. currentlyHighlightedCode x = []" and s = s,
      OF _ _ _ _ _ _ _ _ _ _ _ _ _ _ _ _ _ _ _ _ _ _ assms(2,3)])
  show "isShiftArrow a \<longrightarrow>
    (\<forall>x y. currentlyHighlightedCode x = [] \<longrightarrow> setHighlightedCode x = Inr y \<longrightarrow>
       currentlyHighlightedCode y = [])"
    using assms(1) by simp
qed (simp add: highlightedCode_fields
    | blast intro: highlightedCode_moves highlightedCode_edits highlightedCode_deletes)+

section \<open>The caret stays on a row of the buffer\<close>

text \<open>
  C1, as amended. In every state reached by calls that returned, the caret's row is a row
  of the buffer. (The column is not bounded by the line: the plain vertical arrows change
  the row and leave the column as it is.)
\<close>

theorem caret_row_in_buffer:
  "reachable T s \<Longrightarrow> 0 \<le> caretRow s \<and> caretRow s < lineCount s"
  using reachable_invariant [of T s] by (simp add: rowsOk_def)

theorem caret_row_in_buffer_witness:
  "\<exists>s. construct examplePackage [''ab'', '''']
          [\<lparr>name = ''editor-command-right'', value = ''1''\<rparr>,
           \<lparr>name = ''editor-arrow-down'', value = ''1''\<rparr>] = Inr s \<and>
        reachable examplePackage s \<and> caretRow s = 1 \<and> lineCount s = 2 \<and>
        0 \<le> caretRow s \<and> caretRow s < lineCount s"
proof -
  have "case construct examplePackage [''ab'', '''']
          [\<lparr>name = ''editor-command-right'', value = ''1''\<rparr>,
           \<lparr>name = ''editor-arrow-down'', value = ''1''\<rparr>] of
      Inl e \<Rightarrow> False | Inr s \<Rightarrow> caretRow s = 1 \<and> lineCount s = 2"
    by (simp add: eval_simps parseInt_1)
  then obtain s where s: "construct examplePackage [''ab'', '''']
          [\<lparr>name = ''editor-command-right'', value = ''1''\<rparr>,
           \<lparr>name = ''editor-arrow-down'', value = ''1''\<rparr>] = Inr s"
    and v: "caretRow s = 1 \<and> lineCount s = 2"
    by (auto split: sum.splits)
  have r: "reachable examplePackage s" by (rule construct_reachable [OF s])
  with s v caret_row_in_buffer [OF r] show ?thesis by blast
qed

text \<open>
  The claim as stated also bounds the column by the line's length. On \<open>["ab", ""]\<close>, after
  command-right and one arrow-down, the caret is on the empty second line at column 2.
\<close>

theorem caret_column_counterexample:
  "(case construct examplePackage [''ab'', '''']
          [\<lparr>name = ''editor-command-right'', value = ''1''\<rparr>,
           \<lparr>name = ''editor-arrow-down'', value = ''1''\<rparr>] of
      Inl e \<Rightarrow> None
    | Inr s \<Rightarrow> Some (caretRow s, caretCol s, lineAt s (caretRow s)))
   = Some (1, 2, Some [])"
  by (simp add: eval_simps parseInt_1)

section \<open>The buffer is never empty\<close>

text \<open>
  C2. The constructor turns an empty array of initial lines into one empty line, and in
  every reachable state the buffer has at least one line.
\<close>

theorem buffer_never_empty:
  "(\<exists>s0. construct T [] [] = Inr s0 \<and> getCodeLines s0 = [[]]) \<and>
   (reachable T s \<longrightarrow> 1 \<le> length (getCodeLines s))"
proof
  show "\<exists>s0. construct T [] [] = Inr s0 \<and> getCodeLines s0 = [[]]"
    by (simp add: construct_def getCodeLines_def Let_def)
  show "reachable T s \<longrightarrow> 1 \<le> length (getCodeLines s)"
    using reachable_invariant [of T s] by (auto simp: rowsOk_def lineCount_def)
qed

theorem buffer_never_empty_witness:
  "\<exists>s. construct examplePackage []
          [\<lparr>name = ''editor-backspace'', value = ''1''\<rparr>,
           \<lparr>name = ''editor-enter'', value = ''1''\<rparr>,
           \<lparr>name = ''editor-backspace'', value = ''1''\<rparr>] = Inr s \<and>
        reachable examplePackage s \<and> getCodeLines s = [[]] \<and> 1 \<le> length (getCodeLines s)"
proof -
  have "case construct examplePackage []
          [\<lparr>name = ''editor-backspace'', value = ''1''\<rparr>,
           \<lparr>name = ''editor-enter'', value = ''1''\<rparr>,
           \<lparr>name = ''editor-backspace'', value = ''1''\<rparr>] of
      Inl e \<Rightarrow> False | Inr s \<Rightarrow> getCodeLines s = [[]]"
    by (simp add: eval_simps parseInt_1)
  then obtain s where s: "construct examplePackage []
          [\<lparr>name = ''editor-backspace'', value = ''1''\<rparr>,
           \<lparr>name = ''editor-enter'', value = ''1''\<rparr>,
           \<lparr>name = ''editor-backspace'', value = ''1''\<rparr>] = Inr s"
    and v: "getCodeLines s = [[]]"
    by (auto split: sum.splits)
  have r: "reachable examplePackage s" by (rule construct_reachable [OF s])
  with s v buffer_never_empty [of examplePackage s] show ?thesis by blast
qed

section \<open>Recorded snapshots do not change\<close>

lemma at_append: "i < int (length xs) \<Longrightarrow> at (xs @ ys) i = at xs i"
  by (auto simp: at_def nth_append)

lemma at_in_set: "at xs i = Some x \<Longrightarrow> x \<in> set xs"
  by (auto simp: at_def split: if_splits)

lemma applyAction_history:
  assumes "heapOk s" "applyAction T a s = Inr s'"
  shows "i < int (length (codeLinesHistory s)) \<Longrightarrow>
           getCodeAtActionIndex i s' = getCodeAtActionIndex i s"
    and "i < int (length (highlightHistory s)) \<Longrightarrow>
           getHighlightedCodeAtActionIndex i s' = getHighlightedCodeAtActionIndex i s"
proof -
  note f = applyAction_frame [OF assms(2)]
  have same: "heap s' r = heap s r"
    if "r \<in> set (codeLinesHistory s) \<or> r \<in> set (highlightHistory s)" for r
    using assms(1) that f(6) [of r] by (auto simp: heapOk_def list_all_iff)
  show "getCodeAtActionIndex i s' = getCodeAtActionIndex i s"
    if "i < int (length (codeLinesHistory s))"
    using that same at_in_set [of "codeLinesHistory s" i]
    by (auto simp: getCodeAtActionIndex_def f(4) at_append split: option.splits)
  show "getHighlightedCodeAtActionIndex i s' = getHighlightedCodeAtActionIndex i s"
    if "i < int (length (highlightHistory s))"
    using that same at_in_set [of "highlightHistory s" i]
    by (auto simp: getHighlightedCodeAtActionIndex_def f(5) at_append split: option.splits)
qed

lemma applyActions_history:
  "heapOk s \<Longrightarrow> applyActions T actions s = Inr s' \<Longrightarrow>
   (i < int (length (codeLinesHistory s)) \<longrightarrow>
      getCodeAtActionIndex i s' = getCodeAtActionIndex i s) \<and>
   (i < int (length (highlightHistory s)) \<longrightarrow>
      getHighlightedCodeAtActionIndex i s' = getHighlightedCodeAtActionIndex i s)"
proof (induction actions arbitrary: s)
  case Nil
  then show ?case by simp
next
  case (Cons a actions)
  from Cons.prems(2) obtain s1 where
    s1: "applyAction T a s = Inr s1" "applyActions T actions s1 = Inr s'"
    by (auto split: sum.splits)
  note step = applyAction_history [OF Cons.prems(1) s1(1), of i]
  note len = applyAction_lengths [OF s1(1)]
  note ih = Cons.IH [OF applyAction_heapOk [OF Cons.prems(1) s1(1)] s1(2)]
  show ?case using step len ih by auto
qed

text \<open>
  C3. From a reachable state, whatever actions are applied afterwards, the code and the
  highlighted code recorded at an index that already exists are returned unchanged.
\<close>

theorem history_immutable:
  assumes "reachable T s" and "applyActions T actions s = Inr s'"
    and "i < int (length (actionsApplied s))"
  shows "getCodeAtActionIndex i s' = getCodeAtActionIndex i s \<and>
         getHighlightedCodeAtActionIndex i s' = getHighlightedCodeAtActionIndex i s"
  using reachable_invariant [OF assms(1)] applyActions_history [of s T actions s' i] assms(2,3)
  by simp

theorem history_immutable_witness:
  "\<exists>s s'. construct examplePackage [''ab''] [\<lparr>name = ''editor-tab'', value = ''1''\<rparr>] = Inr s \<and>
     applyActions examplePackage
       [\<lparr>name = ''editor-backspace'', value = ''1''\<rparr>,
        \<lparr>name = ''editor-enter'', value = ''1''\<rparr>] s = Inr s' \<and>
     reachable examplePackage s \<and> 1 < int (length (actionsApplied s)) \<and>
     getCode s' = [NL, CHR ''a'', CHR ''b''] \<and>
     getCodeAtActionIndex 1 s = Inr [CHR 0x09, CHR ''a'', CHR ''b''] \<and>
     getCodeAtActionIndex 1 s' = getCodeAtActionIndex 1 s \<and>
     getHighlightedCodeAtActionIndex 1 s' = getHighlightedCodeAtActionIndex 1 s"
proof -
  have "case construct examplePackage [''ab''] [\<lparr>name = ''editor-tab'', value = ''1''\<rparr>] of
      Inl e \<Rightarrow> False
    | Inr s \<Rightarrow>
        (case applyActions examplePackage
           [\<lparr>name = ''editor-backspace'', value = ''1''\<rparr>,
            \<lparr>name = ''editor-enter'', value = ''1''\<rparr>] s of
           Inl e \<Rightarrow> False
         | Inr s' \<Rightarrow>
             1 < int (length (actionsApplied s)) \<and> getCode s' = [NL, CHR ''a'', CHR ''b''] \<and>
             getCodeAtActionIndex 1 s = Inr [CHR 0x09, CHR ''a'', CHR ''b''])"
    by (simp add: eval_simps parseInt_1)
  then obtain s s' where
    s: "construct examplePackage [''ab''] [\<lparr>name = ''editor-tab'', value = ''1''\<rparr>] = Inr s"
    and s': "applyActions examplePackage
       [\<lparr>name = ''editor-backspace'', value = ''1''\<rparr>,
        \<lparr>name = ''editor-enter'', value = ''1''\<rparr>] s = Inr s'"
    and v: "1 < int (length (actionsApplied s))" "getCode s' = [NL, CHR ''a'', CHR ''b'']"
      "getCodeAtActionIndex 1 s = Inr [CHR 0x09, CHR ''a'', CHR ''b'']"
    by (auto split: sum.splits)
  have r: "reachable examplePackage s" by (rule construct_reachable [OF s])
  from history_immutable [OF r s' v(1)] s s' r v show ?thesis by blast
qed

section \<open>The reported highlighted text\<close>

lemma applyAction_highlightedCode:
  assumes "\<not> isShiftArrow a" "applyAction T a s = Inr s'"
  shows "currentlyHighlightedCode s' = []"
    and "getHighlightedCodeAtActionIndex (int (length (highlightHistory s))) s' = Inr []"
proof -
  from assms(2) obtain n c s1 where
    s1: "switchAction a n c (s\<lparr>currentlyHighlightedCode := []\<rparr>) = Inr s1"
    and s': "s' = recordStep T a s1"
    by (rule applyAction_Inr)
  from switchAction_highlightedCode [OF assms(1) _ s1] have h: "currentlyHighlightedCode s1 = []"
    by simp
  then show "currentlyHighlightedCode s' = []" by (simp add: s' recordStep_fields)
  from switchAction_frame [OF s1] have "highlightHistory s1 = highlightHistory s"
    by (simp add: frame_def)
  with h show "getHighlightedCodeAtActionIndex (int (length (highlightHistory s))) s' = Inr []"
    by (simp add: s' getHighlightedCodeAtActionIndex_def recordStep_fields at_def)
qed

text \<open>
  C10. In a reachable state the reported highlighted text is non-empty only if the last
  applied action is one of the four shift+arrow actions; any other action that is applied
  leaves the reported text empty and records the empty text for its step.
\<close>

theorem highlighted_text_cache:
  assumes "reachable T s"
  shows "(getCurrentHighlightedCode s \<noteq> [] \<longrightarrow> isShiftArrow (last (actionsApplied s))) \<and>
     (\<forall>a s'. \<not> isShiftArrow a \<longrightarrow> applyAction T a s = Inr s' \<longrightarrow>
        getCurrentHighlightedCode s' = [] \<and>
        getHighlightedCodeAtActionIndex (int (length (actionsApplied s))) s' = Inr [])"
proof
  from assms show "getCurrentHighlightedCode s \<noteq> [] \<longrightarrow> isShiftArrow (last (actionsApplied s))"
  proof (cases rule: reachable.cases)
    case (constructed initialCodeLines)
    then show ?thesis using construct_empty by (simp add: getCurrentHighlightedCode_def)
  next
    case (applied s0 action)
    from applyAction_frame(3) [OF applied(2)] have "last (actionsApplied s) = action" by simp
    with applyAction_highlightedCode(1) [OF _ applied(2)] show ?thesis
      by (auto simp: getCurrentHighlightedCode_def)
  qed
  from reachable_invariant [OF assms]
  have "length (highlightHistory s) = length (actionsApplied s)" by simp
  with applyAction_highlightedCode [where s = s and T = T]
  show "\<forall>a s'. \<not> isShiftArrow a \<longrightarrow> applyAction T a s = Inr s' \<longrightarrow>
        getCurrentHighlightedCode s' = [] \<and>
        getHighlightedCodeAtActionIndex (int (length (actionsApplied s))) s' = Inr []"
    by (auto simp: getCurrentHighlightedCode_def)
qed

theorem highlighted_text_cache_witness:
  "\<exists>s s'. construct examplePackage [''ab'']
            [\<lparr>name = ''editor-shift+arrow-right'', value = ''1''\<rparr>] = Inr s \<and>
     applyAction examplePackage \<lparr>name = ''editor-save'', value = ''1''\<rparr> s = Inr s' \<and>
     reachable examplePackage s \<and>
     getCurrentHighlightedCode s = ''a'' \<and> isShiftArrow (last (actionsApplied s)) \<and>
     \<not> isShiftArrow \<lparr>name = ''editor-save'', value = ''1''\<rparr> \<and>
     highlightStartRow s' = 0 \<and> highlightStartCol s' = 0 \<and>
     getCurrentHighlightedCode s' = [] \<and>
     getHighlightedCodeAtActionIndex 1 s' = Inr ''a'' \<and>
     getHighlightedCodeAtActionIndex 2 s' = Inr []"
proof -
  have "case construct examplePackage [''ab'']
            [\<lparr>name = ''editor-shift+arrow-right'', value = ''1''\<rparr>] of
      Inl e \<Rightarrow> False
    | Inr s \<Rightarrow>
        (case applyAction examplePackage \<lparr>name = ''editor-save'', value = ''1''\<rparr> s of
           Inl e \<Rightarrow> False
         | Inr s' \<Rightarrow>
             getCurrentHighlightedCode s = ''a'' \<and> length (actionsApplied s) = 2 \<and>
             highlightStartRow s' = 0 \<and> highlightStartCol s' = 0 \<and>
             getHighlightedCodeAtActionIndex 1 s' = Inr ''a'')"
    by (simp add: eval_simps parseInt_1)
  then obtain s s' where
    s: "construct examplePackage [''ab'']
            [\<lparr>name = ''editor-shift+arrow-right'', value = ''1''\<rparr>] = Inr s"
    and s': "applyAction examplePackage \<lparr>name = ''editor-save'', value = ''1''\<rparr> s = Inr s'"
    and v: "getCurrentHighlightedCode s = ''a''" "length (actionsApplied s) = 2"
      "highlightStartRow s' = 0" "highlightStartCol s' = 0"
      "getHighlightedCodeAtActionIndex 1 s' = Inr ''a''"
    by (auto split: sum.splits)
  have r: "reachable examplePackage s" by (rule construct_reachable [OF s])
  have n: "\<not> isShiftArrow \<lparr>name = ''editor-save'', value = ''1''\<rparr>"
    by (simp add: isShiftArrow_def)
  from highlighted_text_cache [OF r] v(1) n s' v(2)
  have "isShiftArrow (last (actionsApplied s))" "getCurrentHighlightedCode s' = []"
    "getHighlightedCodeAtActionIndex 2 s' = Inr []"
    by auto
  with s s' r v n show ?thesis by blast
qed

section \<open>Typing one character, then backspace\<close>

lemma substring_0: "substring s 0 b = take (nat b) s"
  by (simp add: substring_def Let_def min_def)

lemma getCodeLines_updates:
  "getCodeLines (setLine r v s) = (getCodeLines s)[nat r := v]"
  "getCodeLines (spliceLines st d items s) = splice (getCodeLines s) st d items"
  "getCodeLines (s\<lparr>caretRow := r\<rparr>) = getCodeLines s"
  "getCodeLines (s\<lparr>caretCol := c\<rparr>) = getCodeLines s"
  "getCodeLines (s\<lparr>isSaved := b\<rparr>) = getCodeLines s"
  "getCodeLines (s\<lparr>currentlyHighlightedCode := t\<rparr>) = getCodeLines s"
  by (simp_all add: getCodeLines_def setLine_def spliceLines_def)

lemma lineAt_nth:
  "lineAt s r = Some l \<Longrightarrow>
     0 \<le> r \<and> r < int (length (getCodeLines s)) \<and> nat r < length (getCodeLines s) \<and>
     getCodeLines s ! nat r = l"
  by (auto simp: lineAt_def at_def split: if_splits)

text \<open>The typing action on a state without highlight, for a character that is no line break.\<close>

lemma type_one_char:
  assumes "highlightStartRow s = - 1" "lineAt s (caretRow s) = Some l" "x \<noteq> NL"
    and "\<not> isRepeatableAction T \<lparr>name = ''editor-type'', value = [x]\<rparr>"
    and "codeLines s < heapNext s"
  shows "\<exists>s1. applyAction T \<lparr>name = ''editor-type'', value = [x]\<rparr> s = Inr s1 \<and>
     getCodeLines s1 =
       (getCodeLines s)[nat (caretRow s) := take (nat (caretCol s)) l @ [x] @ drop (nat (caretCol s)) l] \<and>
     caretRow s1 = caretRow s \<and> caretCol s1 = caretCol s + 1 \<and>
     highlightStartRow s1 = - 1 \<and> codeLines s1 < heapNext s1"
  using assms
  by (simp add: applyAction_def switchAction_names(4) editorType_def typeDeleteHighlight_def
      iterations_def typeStep_def lineAt_def getCodeLines_def setLine_def recordStep_fields
      substring_0 substringFrom_def Let_def)


lemma split_NL: "split [NL] = [[], []]"
  by simp

lemma type_line_break:
  assumes "highlightStartRow s = - 1" "lineAt s (caretRow s) = Some l"
    and "\<not> isRepeatableAction T \<lparr>name = ''editor-type'', value = [NL]\<rparr>"
    and "codeLines s < heapNext s"
  shows "\<exists>s1. applyAction T \<lparr>name = ''editor-type'', value = [NL]\<rparr> s = Inr s1 \<and>
     getCodeLines s1 =
       splice ((getCodeLines s)[nat (caretRow s) := take (nat (caretCol s)) l])
         (caretRow s + 1) 0 [drop (nat (caretCol s)) l] \<and>
     caretRow s1 = caretRow s + 1 \<and> caretCol s1 = 0 \<and>
     highlightStartRow s1 = - 1 \<and> codeLines s1 < heapNext s1"
  using assms
  by (simp add: applyAction_def switchAction_names(4) editorType_def typeDeleteHighlight_def
      iterations_def typeStep_def lineAt_def getCodeLines_def setLine_def spliceLines_def
      recordStep_fields substring_0 substringFrom_def Let_def)

lemma backspace_in_line:
  assumes "highlightStartRow s = - 1" "lineAt s (caretRow s) = Some l" "0 < caretCol s"
    and "codeLines s < heapNext s"
  shows "\<exists>s2. applyAction T \<lparr>name = ''editor-backspace'', value = ''1''\<rparr> s = Inr s2 \<and>
     getCodeLines s2 =
       (getCodeLines s)[nat (caretRow s) := take (nat (caretCol s - 1)) l @ drop (nat (caretCol s)) l] \<and>
     caretRow s2 = caretRow s \<and> caretCol s2 = caretCol s - 1"
  using assms
  by (simp add: applyAction_def switchAction_names(9) editorBackspace_def parseInt_1
      iterations_def backspaceStep_def lineAt_def getCodeLines_def setLine_def
      recordStep_fields substring_0 substringFrom_def Let_def)

lemma backspace_at_line_start:
  assumes "highlightStartRow s = - 1" "lineAt s (caretRow s - 1) = Some p"
    "lineAt s (caretRow s) = Some l" "caretCol s = 0" "0 < caretRow s"
    and "codeLines s < heapNext s"
  shows "\<exists>s2. applyAction T \<lparr>name = ''editor-backspace'', value = ''1''\<rparr> s = Inr s2 \<and>
     getCodeLines s2 =
       splice ((getCodeLines s)[nat (caretRow s - 1) := p @ l]) (caretRow s) 1 [] \<and>
     caretRow s2 = caretRow s - 1 \<and> caretCol s2 = int (length p)"
  using assms
  by (simp add: applyAction_def switchAction_names(9) editorBackspace_def parseInt_1
      iterations_def backspaceStep_def lineAt_def getCodeLines_def setLine_def spliceLines_def
      recordStep_fields substring_0 substringFrom_def Let_def)

text \<open>Splitting a line of a list in two and joining the halves again.\<close>

lemma split_then_join:
  assumes "r < length xs" "xs ! r = l"
  shows "splice ((splice (xs[r := take c l]) (int r + 1) 0 [drop c l])[r := take c l @ drop c l])
           (int r + 1) 1 [] = xs"
proof -
  have a: "splice (xs[r := take c l]) (int r + 1) 0 [drop c l] =
      take r xs @ [take c l, drop c l] @ drop (Suc r) xs"
    using assms
    by (simp add: splice_def Let_def min_def nat_add_distrib take_Suc_conv_app_nth
        upd_conv_take_nth_drop)
  have b: "(take r xs @ [take c l, drop c l] @ drop (Suc r) xs)[r := take c l @ drop c l] =
      take r xs @ [take c l @ drop c l, drop c l] @ drop (Suc r) xs"
    using assms by (simp add: list_update_append)
  have c: "splice (take r xs @ [l, drop c l] @ drop (Suc r) xs) (int r + 1) 1 [] =
      take r xs @ [l] @ drop (Suc r) xs"
    using assms by (simp add: splice_def Let_def min_def nat_add_distrib)
  from a b c assms id_take_nth_drop [of r xs] show ?thesis
    by simp
qed


text \<open>
  C4, as amended. From a reachable state with no active selection and the caret's column
  inside its line (end of line included), typing one character (any character, a line
  break included) with an action that the types package does not classify as repeatable,
  and then one backspace, gives back the buffer and the caret.
\<close>

theorem type_backspace_round_trip:
  assumes "reachable T s" "highlightStartRow s = - 1"
    and "lineAt s (caretRow s) = Some l" "0 \<le> caretCol s" "caretCol s \<le> int (length l)"
    and "\<not> isRepeatableAction T \<lparr>name = ''editor-type'', value = [x]\<rparr>"
  shows "\<exists>s1 s2.
     applyAction T \<lparr>name = ''editor-type'', value = [x]\<rparr> s = Inr s1 \<and>
     applyAction T \<lparr>name = ''editor-backspace'', value = ''1''\<rparr> s1 = Inr s2 \<and>
     getCodeLines s2 = getCodeLines s \<and> caretRow s2 = caretRow s \<and> caretCol s2 = caretCol s"
proof -
  from reachable_invariant [OF assms(1)] have h: "codeLines s < heapNext s"
    by (simp add: heapOk_def)
  note row = lineAt_nth [OF assms(3)]
  let ?r = "nat (caretRow s)" and ?c = "nat (caretCol s)"
  show ?thesis
  proof (cases "x = NL")
    case False
    let ?l1 = "take ?c l @ [x] @ drop ?c l"
    from type_one_char [OF assms(2,3) False assms(6) h] obtain s1 where
      s1: "applyAction T \<lparr>name = ''editor-type'', value = [x]\<rparr> s = Inr s1"
        "getCodeLines s1 = (getCodeLines s)[?r := ?l1]"
        "caretRow s1 = caretRow s" "caretCol s1 = caretCol s + 1"
        "highlightStartRow s1 = - 1" "codeLines s1 < heapNext s1"
      by blast
    have l1: "lineAt s1 (caretRow s1) = Some ?l1"
      using row by (simp add: lineAt_def at_def s1(2,3))
    have pos: "0 < caretCol s1" using assms(4) by (simp add: s1(4))
    from backspace_in_line [OF s1(5) l1 pos s1(6)] obtain s2 where
      s2: "applyAction T \<lparr>name = ''editor-backspace'', value = ''1''\<rparr> s1 = Inr s2"
        "getCodeLines s2 =
           (getCodeLines s1)[nat (caretRow s1) := take (nat (caretCol s1 - 1)) ?l1 @ drop (nat (caretCol s1)) ?l1]"
        "caretRow s2 = caretRow s1" "caretCol s2 = caretCol s1 - 1"
      by blast
    have "take (nat (caretCol s1 - 1)) ?l1 @ drop (nat (caretCol s1)) ?l1 = l"
      using assms(4,5) by (simp add: s1(4) nat_add_distrib)
    moreover have "(getCodeLines s)[?r := l] = getCodeLines s"
      using row list_update_id [of "getCodeLines s" ?r] by simp
    ultimately have "getCodeLines s2 = getCodeLines s"
      using s2(2) by (simp add: s1(2,3))
    with s1(1) s2(1) s1(3,4) s2(3,4) show ?thesis by auto
  next
    case True
    from type_line_break [OF assms(2,3) assms(6) [unfolded True] h] obtain s1 where
      s1: "applyAction T \<lparr>name = ''editor-type'', value = [NL]\<rparr> s = Inr s1"
        "getCodeLines s1 =
           splice ((getCodeLines s)[?r := take ?c l]) (caretRow s + 1) 0 [drop ?c l]"
        "caretRow s1 = caretRow s + 1" "caretCol s1 = 0"
        "highlightStartRow s1 = - 1" "codeLines s1 < heapNext s1"
      by blast
    have shape: "getCodeLines s1 =
        take ?r (getCodeLines s) @ [take ?c l, drop ?c l] @ drop (Suc ?r) (getCodeLines s)"
      using row
      by (simp add: s1(2) splice_def Let_def min_def nat_add_distrib take_Suc_conv_app_nth
          upd_conv_take_nth_drop)
    have p: "lineAt s1 (caretRow s1 - 1) = Some (take ?c l)"
      using row by (simp add: lineAt_def at_def s1(3) shape nth_append)
    have c: "lineAt s1 (caretRow s1) = Some (drop ?c l)"
      using row by (simp add: lineAt_def at_def s1(3) shape nth_append nat_add_distrib)
    have pos: "0 < caretRow s1" using row by (simp add: s1(3))
    from backspace_at_line_start [OF s1(5) p c s1(4) pos s1(6)] obtain s2 where
      s2: "applyAction T \<lparr>name = ''editor-backspace'', value = ''1''\<rparr> s1 = Inr s2"
        "getCodeLines s2 =
           splice ((getCodeLines s1)[nat (caretRow s1 - 1) := take ?c l @ drop ?c l]) (caretRow s1) 1 []"
        "caretRow s2 = caretRow s1 - 1" "caretCol s2 = int (length (take ?c l))"
      by blast
    have "getCodeLines s2 = getCodeLines s"
      using split_then_join [of ?r "getCodeLines s" l ?c] row
      by (simp add: s2(2) s1(2,3))
    moreover have "caretCol s2 = caretCol s"
      using assms(4,5) by (auto simp: s2(4) min_def)
    ultimately show ?thesis
      using s1(1) s2(1) s1(3) s2(3) True by auto
  qed
qed

theorem type_backspace_round_trip_witness:
  "\<exists>s s1 s2.
     construct examplePackage [''ab''] [\<lparr>name = ''editor-arrow-right'', value = ''1''\<rparr>] = Inr s \<and>
     reachable examplePackage s \<and> highlightStartRow s = - 1 \<and>
     lineAt s (caretRow s) = Some ''ab'' \<and> caretCol s = 1 \<and>
     \<not> isRepeatableAction examplePackage \<lparr>name = ''editor-type'', value = ''X''\<rparr> \<and>
     applyAction examplePackage \<lparr>name = ''editor-type'', value = ''X''\<rparr> s = Inr s1 \<and>
     applyAction examplePackage \<lparr>name = ''editor-backspace'', value = ''1''\<rparr> s1 = Inr s2 \<and>
     getCodeLines s2 = getCodeLines s \<and> caretRow s2 = caretRow s \<and> caretCol s2 = caretCol s"
proof -
  have "case construct examplePackage [''ab''] [\<lparr>name = ''editor-arrow-right'', value = ''1''\<rparr>] of
      Inl e \<Rightarrow> False
    | Inr s \<Rightarrow> highlightStartRow s = - 1 \<and> lineAt s (caretRow s) = Some ''ab'' \<and> caretCol s = 1"
    by (simp add: eval_simps parseInt_1)
  then obtain s where
    s: "construct examplePackage [''ab''] [\<lparr>name = ''editor-arrow-right'', value = ''1''\<rparr>] = Inr s"
    and v: "highlightStartRow s = - 1" "lineAt s (caretRow s) = Some ''ab''" "caretCol s = 1"
    by (auto split: sum.splits)
  have r: "reachable examplePackage s" by (rule construct_reachable [OF s])
  have n: "\<not> isRepeatableAction examplePackage \<lparr>name = ''editor-type'', value = ''X''\<rparr>"
    by (simp add: examplePackage_def)
  from type_backspace_round_trip [OF r v(1,2) _ _ n] v(3) s r v n show ?thesis
    by auto
qed

text \<open>
  The claim as stated covers every reachable state. With a selection, typing replaces the
  selected text and the backspace does not bring it back: on \<open>["abc"]\<close> with \<open>a\<close> selected the
  pair leaves \<open>["bc"]\<close> and the caret at column 0. With the caret beyond the end of its line
  (row 1, column 2 on the empty line of \<open>["ab", ""]\<close>), the character typed stays in the
  buffer. Each line gives the buffer and caret before and after the pair.
\<close>

theorem type_backspace_counterexample:
  "(case construct examplePackage [''abc'']
           [\<lparr>name = ''editor-shift+arrow-right'', value = ''1''\<rparr>] of
      Inl e \<Rightarrow> None
    | Inr s \<Rightarrow>
        (case applyActions examplePackage
                [\<lparr>name = ''editor-type'', value = ''X''\<rparr>,
                 \<lparr>name = ''editor-backspace'', value = ''1''\<rparr>] s of
           Inl e \<Rightarrow> None
         | Inr s' \<Rightarrow> Some ((getCodeLines s, caretRow s, caretCol s),
                           (getCodeLines s', caretRow s', caretCol s'))))
   = Some (([''abc''], 0, 1), ([''bc''], 0, 0)) \<and>
   (case construct examplePackage [''ab'', '''']
           [\<lparr>name = ''editor-command-right'', value = ''1''\<rparr>,
            \<lparr>name = ''editor-arrow-down'', value = ''1''\<rparr>] of
      Inl e \<Rightarrow> None
    | Inr s \<Rightarrow>
        (case applyActions examplePackage
                [\<lparr>name = ''editor-type'', value = ''X''\<rparr>,
                 \<lparr>name = ''editor-backspace'', value = ''1''\<rparr>] s of
           Inl e \<Rightarrow> None
         | Inr s' \<Rightarrow> Some ((getCodeLines s, caretRow s, caretCol s),
                           (getCodeLines s', caretRow s', caretCol s'))))
   = Some (([''ab'', ''''], 1, 2), ([''ab'', ''X''], 1, 2))"
  by (simp add: eval_simps parseInt_1 examplePackage_def)

section \<open>The two engines on corresponding states\<close>































section \<open>Left arrow at the start of a line\<close>

text \<open>
  C5. The claim: from column 0 of a row below the first, one plain left-arrow step puts
  the caret on the previous row at that line's length. The code computes the length minus
  one: on the buffer \<open>["ab", "cd"]\<close>, after one arrow-down, one arrow-left leaves the caret
  at row 0, column 1, while the end of \<open>"ab"\<close> is column 2 (the line lengths are the third
  component).
\<close>

theorem arrow_left_wrap_column:
  "(case construct T [''ab'', ''cd'']
           [\<lparr>name = ''editor-arrow-down'', value = ''1''\<rparr>,
            \<lparr>name = ''editor-arrow-left'', value = ''1''\<rparr>] of
      Inl e \<Rightarrow> None
    | Inr s \<Rightarrow> Some (caretRow s, caretCol s, map length (getCodeLines s)))
   = Some (0, 1, [2, 2])"
  by (simp add: eval_simps parseInt_1)

section \<open>Space over a selection on one line\<close>

text \<open>
  C6. The claim: the space action first deletes the selected text, with the caret at the
  selection's start, then inserts the spaces. On \<open>["abc"]\<close> with \<open>c\<close> selected by
  shift+arrow-left from the end of the line, the code deletes nothing and inserts the space
  at the selection's end: the buffer is \<open>"abc "\<close> and the caret is at column 4, where the
  claim gives \<open>"ab "\<close> and column 3.
\<close>

theorem space_single_line_selection:
  "(case construct T [''abc'']
           [\<lparr>name = ''editor-command-right'', value = ''1''\<rparr>,
            \<lparr>name = ''editor-shift+arrow-left'', value = ''1''\<rparr>,
            \<lparr>name = ''editor-space'', value = ''1''\<rparr>] of
      Inl e \<Rightarrow> None
    | Inr s \<Rightarrow> Some (getHighlightedCodeAtActionIndex 2 s, getCodeLines s, caretRow s, caretCol s))
   = Some (Inr ''c'', [''abc ''], 0, 4)"
  by (simp add: eval_simps parseInt_1)

section \<open>The saved flag\<close>

text \<open>
  C7. The claim: every buffer-mutating action, tab insertion included, clears the saved
  flag. After a save, a tab changes the buffer and \<open>getIsSaved()\<close> is still true.
\<close>

theorem tab_keeps_saved_flag:
  "(case construct T [''a'']
           [\<lparr>name = ''editor-save'', value = ''1''\<rparr>,
            \<lparr>name = ''editor-tab'', value = ''1''\<rparr>] of
      Inl e \<Rightarrow> None
    | Inr s \<Rightarrow> Some (getIsSaved s, getCodeLines s))
   = Some (True, [[CHR 0x09, CHR ''a'']])"
  by (simp add: eval_simps parseInt_1)

section \<open>A repeat count that is not a number\<close>

text \<open>
  C8. The claim: a repeatable action whose value does not parse as an integer is applied
  once. With a types package that classifies the action as repeatable, the count is
  \<open>NaN\<close>: arrow-down with the value \<open>"abc"\<close> on \<open>["a", "b"]\<close> leaves the caret on row 0 (no
  application), and enter over a selection throws a \<open>RangeError\<close>.
\<close>

theorem malformed_count_applies_nothing:
  "(case construct (T\<lparr>isRepeatableAction := \<lambda>a. True\<rparr>) [''a'', ''b'']
           [\<lparr>name = ''editor-arrow-down'', value = ''abc''\<rparr>] of
      Inl e \<Rightarrow> None
    | Inr s \<Rightarrow> Some (caretRow s)) = Some 0 \<and>
   (case construct (T\<lparr>isRepeatableAction := \<lambda>a. True\<rparr>) [''ab'']
           [\<lparr>name = ''editor-shift+arrow-right'', value = ''1''\<rparr>,
            \<lparr>name = ''editor-enter'', value = ''abc''\<rparr>] of
      Inl e \<Rightarrow> Some e
    | Inr s \<Rightarrow> None) = Some RangeError"
  by (simp add: eval_simps parseInt_1 parseInt_abc)

end
